theory Spec2Isabelle
  imports Main "HOL-Library.AList" "HOL-Library.Char_ord" "HOL-Library.List_Lexorder"
    "HOL-Library.Multiset" "HOL-Library.Product_Lexorder"
begin

section \<open>The JavaScript runtime, as far as the data processor uses it\<close>

text \<open>
  Strings are lists of \<^typ>\<open>char\<close>: code units below 256. The order on strings is the
  lexicographic order of the code units, the order \<open>Array.prototype.sort\<close> uses when it is
  called without a comparator on an array of strings; HOL's \<^const>\<open>sort\<close> on strings
  stands for that call.
\<close>

text \<open>\<open>v || d\<close> for a property that is \<open>undefined\<close> (\<open>None\<close>) or a string: the
  empty string is falsy.\<close>

definition js_or :: "string option \<Rightarrow> string \<Rightarrow> string" where
  "js_or v d = (case v of None \<Rightarrow> d | Some s \<Rightarrow> if s = [] then d else s)"

text \<open>\<open>s.split(sep)\<close> for a separator of one character: never an empty array.\<close>

fun split :: "char \<Rightarrow> string \<Rightarrow> string list" where
  "split sep [] = [[]]"
| "split sep (c # cs) =
     (let r = split sep cs in if c = sep then [] # r else (c # hd r) # tl r)"

text \<open>\<open>a[i]\<close> on an array: \<open>undefined\<close> (\<open>None\<close>) out of range.\<close>

definition at_index :: "'a list \<Rightarrow> nat \<Rightarrow> 'a option" where
  "at_index a i = (if i < length a then Some (a ! i) else None)"

text \<open>\<open>s.includes(c)\<close> for a string of one character.\<close>

definition String_includes :: "string \<Rightarrow> char \<Rightarrow> bool" where
  "String_includes s c = (c \<in> set s)"

text \<open>\<open>s.padStart(n, c)\<close> for a pad string of one character.\<close>

definition padStart :: "nat \<Rightarrow> char \<Rightarrow> string \<Rightarrow> string" where
  "padStart n c s = replicate (n - length s) c @ s"

text \<open>A \<open>Set\<close> of strings keeps its members in insertion order; \<open>add\<close> of a member
  changes nothing.\<close>

definition Set_add :: "string \<Rightarrow> string list \<Rightarrow> string list" where
  "Set_add v s = (if v \<in> set s then s else s @ [v])"

text \<open>A \<open>Map\<close> keeps its entries in insertion order, one entry per key: an association
  list; \<open>set\<close> is \<^const>\<open>AList.update\<close>, \<open>get\<close> is \<^const>\<open>map_of\<close>.\<close>

definition Map_has :: "('k \<times> 'v) list \<Rightarrow> 'k \<Rightarrow> bool" where
  "Map_has m k = (map_of m k \<noteq> None)"

text \<open>\<open>a.sort(cmp)\<close>: a stable sort. The comparator returns a number, \<open>None\<close> for
  \<open>NaN\<close>, which the sort reads as \<open>0\<close>. For a comparator that is a consistent order
  (here: every key is a valid date) the result is that order, equal elements as they
  stood, whatever the algorithm. For a comparator that returns \<open>NaN\<close> the language
  leaves the order to the implementation: this model is an insertion sort then, the
  engine's sort gives another order, and nothing below is said about the order in that
  case.\<close>

fun insert_by :: "('a \<Rightarrow> 'a \<Rightarrow> int option) \<Rightarrow> 'a \<Rightarrow> 'a list \<Rightarrow> 'a list" where
  "insert_by cmp v [] = [v]"
| "insert_by cmp v (y # ys) =
     (case cmp v y of
        Some n \<Rightarrow> if 0 < n then y # insert_by cmp v ys else v # y # ys
      | None \<Rightarrow> v # y # ys)"

definition sort_by :: "('a \<Rightarrow> 'a \<Rightarrow> int option) \<Rightarrow> 'a list \<Rightarrow> 'a list" where
  "sort_by cmp a = foldr (insert_by cmp) a []"

text \<open>\<open>new Date(a) - new Date(b)\<close>. How \<open>new Date\<close> reads a string that is not in the
  ISO format is left to the implementation, so the time value of \<open>new Date(s)\<close> is a
  parameter \<open>newDate\<close>: \<open>None\<close> for an invalid date, whose time value is \<open>NaN\<close>.\<close>

definition date_minus :: "(string \<Rightarrow> int option) \<Rightarrow> string \<Rightarrow> string \<Rightarrow> int option" where
  "date_minus newDate a b =
     (case (newDate a, newDate b) of (Some m, Some n) \<Rightarrow> Some (m - n) | _ \<Rightarrow> None)"

text \<open>Numbers that are not interpreted: the result of \<open>parseFloat\<close> on a field, and of
  \<open>JSON.parse\<close> on the text of a file.\<close>

datatype jsfloat = parseFloat "string option"

datatype json = JSON_parse string

section \<open>The data model\<close>

text \<open>A row of csv-parser: an object from the column names of the header to the
  strings of the line; a column the header lacks is \<open>undefined\<close>.\<close>

type_synonym row = "string \<rightharpoonup> string"

record incident =
  lat :: jsfloat
  lng :: jsfloat
  date :: string
  type :: string
  category :: string
  targetCategory :: string
  target :: string
  forceType :: string
  city :: string
  province :: string
  time :: string

record DataProcessor =
  allIncidents :: "incident list"
  dateIndex :: "(string \<times> incident list) list"
  types :: "string list"
  categories :: "string list"
  provinces :: "string list"
  dates :: "string list"
  iraqBoundary :: "json option"
  isLoaded :: bool

text \<open>The second source of the class (the document that follows the server in
  \<open>src/server.js\<close>) has one more field.\<close>

record DataProcessor2 = DataProcessor +
  heatmapData :: "json option"

text \<open>The filters object of \<open>getIncidents\<close>: each property \<open>undefined\<close> or a string.\<close>

record filters =
  ftype :: "string option"
  fcategory :: "string option"
  fprovince :: "string option"

section \<open>data-processor.js\<close>

definition constructor :: DataProcessor where
  "constructor =
     \<lparr>allIncidents = [], dateIndex = [], types = [], categories = [], provinces = [],
      dates = [], iraqBoundary = None, isLoaded = False\<rparr>"

text \<open>The handler of a \<open>data\<close> event. The two sources differ in \<open>formattedDate\<close> only,
  which is the parameter \<open>fmt\<close>; the state is \<open>this\<close> and the local array
  \<open>incidents\<close>.\<close>

definition onData_with ::
  "(string \<Rightarrow> string) \<Rightarrow> row \<Rightarrow> 'a DataProcessor_scheme \<times> incident list
     \<Rightarrow> 'a DataProcessor_scheme \<times> incident list" where
  "onData_with fmt r st =
     (let this = fst st; incidents = snd st;
          dateTime = js_or (r ''date_time_occ'') '''';
          datePart = hd (split CHR '' '' dateTime);
          timePart = js_or (at_index (split CHR '' '' dateTime) 1) '''';
          formattedDate = fmt datePart;
          i = \<lparr>lat = parseFloat (r ''mgrs_Y''),
               lng = parseFloat (r ''mgrs_X''),
               date = formattedDate,
               type = js_or (r ''Incident Type'') ''Unknown'',
               category = js_or (r ''Incident Category'') ''N/A'',
               targetCategory = js_or (r ''Target Category'') ''N/A'',
               target = js_or (r ''target'') ''N/A'',
               forceType = js_or (r ''force_type'') ''N/A'',
               city = js_or (r ''City'') ''N/A'',
               province = js_or (r ''Province'') ''N/A'',
               time = timePart\<rparr>;
          this = this\<lparr>types := Set_add (type i) (types this)\<rparr>;
          this = this\<lparr>categories := Set_add (category i) (categories this)\<rparr>;
          this = this\<lparr>provinces := Set_add (province i) (provinces this)\<rparr>;
          this = (if \<not> Map_has (dateIndex this) formattedDate
                  then this\<lparr>dateIndex := AList.update formattedDate [] (dateIndex this)\<rparr>
                  else this);
          this = this\<lparr>dateIndex :=
                   AList.update formattedDate
                     (the (map_of (dateIndex this) formattedDate) @ [i]) (dateIndex this)\<rparr>
      in (this, incidents @ [i]))"

text \<open>data-processor.js stores the date portion as it is.\<close>

definition onData ::
  "row \<Rightarrow> DataProcessor \<times> incident list \<Rightarrow> DataProcessor \<times> incident list" where
  "onData = onData_with (\<lambda>datePart. datePart)"

text \<open>The handler of the \<open>end\<close> event. \<open>boundaryFile\<close> is the text of the boundary
  file when \<open>boundaryPath\<close> is given and the file exists; the text is taken to be JSON.
  (On a text that is not JSON \<open>JSON.parse\<close> throws in the handler, the promise never
  settles and \<open>isLoaded\<close> stays false: that run is no load that completes, and it is not
  modelled.)\<close>

definition onEnd ::
  "(string \<Rightarrow> int option) \<Rightarrow> string option \<Rightarrow> DataProcessor \<times> incident list
     \<Rightarrow> DataProcessor" where
  "onEnd newDate boundaryFile st =
     (let this = fst st; incidents = snd st;
          this = this\<lparr>allIncidents := incidents\<rparr>;
          this = this\<lparr>dates := sort_by (date_minus newDate) (map fst (dateIndex this))\<rparr>;
          this = (case boundaryFile of
                    Some txt \<Rightarrow> this\<lparr>iraqBoundary := Some (JSON_parse txt)\<rparr>
                  | None \<Rightarrow> this)
      in this\<lparr>isLoaded := True\<rparr>)"

text \<open>\<open>loadData\<close> on a stream that delivers the rows and ends; a stream error rejects
  the promise and the server exits, which no property below is about.\<close>

definition loadData ::
  "(string \<Rightarrow> int option) \<Rightarrow> row list \<Rightarrow> string option \<Rightarrow> DataProcessor
     \<Rightarrow> DataProcessor" where
  "loadData newDate rows boundaryFile this =
     onEnd newDate boundaryFile (fold onData rows (this, []))"

definition getDates :: "'a DataProcessor_scheme \<Rightarrow> string list" where
  "getDates this = dates this"

text \<open>\<open>v && v !== 'all'\<close> on a property of the filters.\<close>

definition applies :: "string option \<Rightarrow> bool" where
  "applies v = (js_or v '''' \<noteq> '''' \<and> v \<noteq> Some ''all'')"

definition getIncidents :: "'a DataProcessor_scheme \<Rightarrow> string \<Rightarrow> filters \<Rightarrow> incident list" where
  "getIncidents this d f =
     (let incidents = (case map_of (dateIndex this) d of Some b \<Rightarrow> b | None \<Rightarrow> []);
          incidents = (if applies (ftype f)
                       then filter (\<lambda>i. Some (type i) = ftype f) incidents else incidents);
          incidents = (if applies (fcategory f)
                       then filter (\<lambda>i. Some (category i) = fcategory f) incidents
                       else incidents);
          incidents = (if applies (fprovince f)
                       then filter (\<lambda>i. Some (province i) = fprovince f) incidents
                       else incidents)
      in incidents)"

definition getMetadata :: "'a DataProcessor_scheme \<Rightarrow> string list \<times> string list \<times> string list" where
  "getMetadata this = (sort (types this), sort (categories this), sort (provinces this))"

definition getBoundary :: "'a DataProcessor_scheme \<Rightarrow> json option" where
  "getBoundary this = iraqBoundary this"

section \<open>Plain objects used as dictionaries\<close>

text \<open>
  A number of the language, as far as counters reach: a natural number or \<open>NaN\<close>.
  (Counters are doubles; below \<open>2^53\<close> the increments are exact.)
\<close>

datatype jsnum = Num nat | NaN

text \<open>
  An object made by \<open>{}\<close>: its own properties in creation order, all enumerable, with
  string keys. Its prototype is \<open>Object.prototype\<close>, taken as the runtime starts it: the
  functions below and the accessor \<open>__proto__\<close>, none enumerable.
\<close>

type_synonym 'v object = "(string \<times> 'v) list"

definition Object_prototype_functions :: "string list" where
  "Object_prototype_functions =
     [''constructor'', ''__defineGetter__'', ''__defineSetter__'', ''hasOwnProperty'',
      ''__lookupGetter__'', ''__lookupSetter__'', ''isPrototypeOf'',
      ''propertyIsEnumerable'', ''toString'', ''valueOf'', ''toLocaleString'']"

definition inherited :: "string \<Rightarrow> bool" where
  "inherited k = (k = ''__proto__'' \<or> k \<in> set Object_prototype_functions)"

text \<open>What \<open>o[k]\<close> reads.\<close>

datatype 'v property = Undefined | Own 'v | Builtin_function | Object_prototype

definition Get :: "'v object \<Rightarrow> string \<Rightarrow> 'v property" where
  "Get obj k =
     (case map_of obj k of
        Some v \<Rightarrow> Own v
      | None \<Rightarrow>
          if k = ''__proto__'' then Object_prototype
          else if k \<in> set Object_prototype_functions then Builtin_function
          else Undefined)"

text \<open>\<open>o[k] = v\<close> for a number \<open>v\<close>: the setter of \<open>__proto__\<close> ignores a value that
  is no object; an inherited function is writable, so the object gets a property of its
  own.\<close>

definition Put :: "jsnum object \<Rightarrow> string \<Rightarrow> jsnum \<Rightarrow> jsnum object" where
  "Put obj k v =
     (if k = ''__proto__'' \<and> map_of obj k = None then obj else AList.update k v obj)"

definition falsy :: "jsnum property \<Rightarrow> bool" where
  "falsy p = (p = Undefined \<or> p = Own (Num 0) \<or> p = Own NaN)"

text \<open>\<open>ToNumber\<close>: a function and \<open>Object.prototype\<close> convert to a string that is no
  number.\<close>

definition ToNumber :: "jsnum property \<Rightarrow> jsnum" where
  "ToNumber p = (case p of Own v \<Rightarrow> v | _ \<Rightarrow> NaN)"

definition plus1 :: "jsnum \<Rightarrow> jsnum" where
  "plus1 v = (case v of Num n \<Rightarrow> Num (n + 1) | NaN \<Rightarrow> NaN)"

text \<open>\<open>o[k]++\<close>.\<close>

definition increment :: "jsnum object \<Rightarrow> string \<Rightarrow> jsnum object" where
  "increment obj k = Put obj k (plus1 (ToNumber (Get obj k)))"

text \<open>The order in which \<open>for ... in\<close>, \<open>Object.keys\<close> and \<open>Object.values\<close> visit the own
  properties: the array indices (canonical decimal strings below \<open>2^32 - 1\<close>) in
  ascending numeric order, then the other keys in creation order.\<close>

definition isDigit :: "char \<Rightarrow> bool" where
  "isDigit c = (c \<in> set ''0123456789'')"

definition digit :: "char \<Rightarrow> int" where
  "digit c = of_char c - 48"

definition decimal :: "string \<Rightarrow> int" where
  "decimal s = foldl (\<lambda>a c. 10 * a + digit c) 0 s"

definition isArrayIndex :: "string \<Rightarrow> bool" where
  "isArrayIndex k =
     (k \<noteq> [] \<and> list_all isDigit k \<and> (k = ''0'' \<or> hd k \<noteq> CHR ''0'') \<and> decimal k < 4294967295)"

definition entries :: "'v object \<Rightarrow> (string \<times> 'v) list" where
  "entries obj =
     sort_key (\<lambda>p. decimal (fst p)) (filter (\<lambda>p. isArrayIndex (fst p)) obj)
       @ filter (\<lambda>p. \<not> isArrayIndex (fst p)) obj"

definition Object_keys :: "'v object \<Rightarrow> string list" where
  "Object_keys obj = map fst (entries obj)"

definition Object_values :: "'v object \<Rightarrow> 'v list" where
  "Object_values obj = map snd (entries obj)"

text \<open>
  What a call can end with instead of a value. \<open>TypeError\<close> is the exception of the
  language. \<open>OutsideModel\<close> is no outcome of the program: the call has reached a built-in
  object (a function of \<open>Object.prototype\<close>, or \<open>Object.prototype\<close> itself) and goes on
  to read or write its properties, which this model does not follow.
\<close>

datatype error = TypeError | OutsideModel

text \<open>
  The statements
  \<^verbatim>\<open>if (!data[a]) data[a] = {}; if (!data[a][b]) data[a][b] = 0; data[a][b]++;\<close>
  of \<open>getTreemapData\<close> (\<open>a\<close> the type, \<open>b\<close> the category) and of \<open>getHeatmapData\<close> (\<open>a\<close>
  the year, \<open>b\<close> the date). An inherited \<open>data[a]\<close> is truthy, so no object is made for
  it, and \<open>data[a][b]\<close> is a property of the built-in object. Of a built-in function the
  own properties \<open>length\<close> and \<open>name\<close> are read-only: a class body is strict code, where
  the assignment to them throws.
\<close>

definition countInner :: "jsnum object \<Rightarrow> string \<Rightarrow> jsnum object" where
  "countInner obj b =
     (let obj = (if falsy (Get obj b) then Put obj b (Num 0) else obj)
      in increment obj b)"

definition countNested ::
  "string \<Rightarrow> string \<Rightarrow> jsnum object object \<Rightarrow> error + jsnum object object" where
  "countNested a b data =
     (case Get data a of
        Undefined \<Rightarrow> Inr (AList.update a (countInner [] b) data)
      | Own obj \<Rightarrow> Inr (AList.update a (countInner obj b) data)
      | Builtin_function \<Rightarrow>
          if b = ''length'' \<or> b = ''name'' then Inl TypeError else Inl OutsideModel
      | Object_prototype \<Rightarrow> Inl OutsideModel)"

fun countAll ::
  "(string \<times> string) list \<Rightarrow> jsnum object object \<Rightarrow> error + jsnum object object" where
  "countAll [] data = Inr data"
| "countAll (ab # rest) data =
     (case countNested (fst ab) (snd ab) data of
        Inl e \<Rightarrow> Inl e
      | Inr data' \<Rightarrow> countAll rest data')"

section \<open>The aggregates of data-processor.js\<close>

text \<open>The series of \<open>getTreemapData\<close>: for each type the pair of \<open>name\<close> and \<open>data\<close>, and
  in \<open>data\<close> for each category the pair of \<open>x\<close> and \<open>y\<close>.\<close>

definition getTreemapData ::
  "'a DataProcessor_scheme \<Rightarrow> error + (string \<times> (string \<times> jsnum) list) list" where
  "getTreemapData this =
     (case countAll (map (\<lambda>i. (type i, category i)) (allIncidents this)) [] of
        Inl e \<Rightarrow> Inl e
      | Inr treemapData \<Rightarrow>
          Inr (map (\<lambda>p. (fst p, entries (snd p))) (entries treemapData)))"

text \<open>
  \<open>parseInt(s)\<close> without a radix: leading white space, a sign, the prefix \<open>0x\<close>, then the
  longest run of digits; \<open>NaN\<close> (\<open>None\<close>) when the run is empty. The result is exact
  here; the double the language returns for a long run compares with the hours below as
  the exact value does.
\<close>

definition isWhiteSpace :: "char \<Rightarrow> bool" where
  "isWhiteSpace c = (c \<in> set [CHR 0x09, CHR 0x0A, CHR 0x0B, CHR 0x0C, CHR 0x0D, CHR 0x20, CHR 0xA0])"

definition radixDigit :: "nat \<Rightarrow> char \<Rightarrow> nat option" where
  "radixDigit R c =
     (let v = (if c \<in> set ''0123456789'' then Some (of_char c - 48)
               else if c \<in> set ''abcdef'' then Some (of_char c - 87)
               else if c \<in> set ''ABCDEF'' then Some (of_char c - 55)
               else None)
      in case v of Some n \<Rightarrow> if n < R then Some n else None | None \<Rightarrow> None)"

definition parseInt :: "string \<Rightarrow> int option" where
  "parseInt inputString =
     (let S = dropWhile isWhiteSpace inputString;
          sign = (if take 1 S = ''-'' then - 1 else 1 :: int);
          S = (if take 1 S = ''+'' \<or> take 1 S = ''-'' then drop 1 S else S);
          hex = (take 2 S = ''0x'' \<or> take 2 S = ''0X'');
          R = (if hex then 16 else 10);
          S = (if hex then drop 2 S else S);
          Z = takeWhile (\<lambda>c. radixDigit R c \<noteq> None) S
      in if Z = [] then None
         else Some (sign * int (foldl (\<lambda>a c. R * a + the (radixDigit R c)) 0 Z)))"

definition radarLabels :: "string list" where
  "radarLabels =
     [''Early Night (00:00-03:59)'', ''Early Morning (04:00-08:59)'',
      ''Mid-Morning (09:00-11:59)'', ''Early Afternoon (12:00-14:59)'',
      ''Late Afternoon (15:00-17:59)'', ''Evening (18:00-21:59)'',
      ''Late Night (22:00-23:59)'']"

text \<open>The chain of comparisons on \<open>hour\<close>; each is false on \<open>NaN\<close>.\<close>

definition timeCategory :: "int option \<Rightarrow> string" where
  "timeCategory hour =
     (case hour of
        None \<Rightarrow> ''''
      | Some h \<Rightarrow>
          if h \<ge> 0 \<and> h < 4 then ''Early Night (00:00-03:59)''
          else if h \<ge> 4 \<and> h < 9 then ''Early Morning (04:00-08:59)''
          else if h \<ge> 9 \<and> h < 12 then ''Mid-Morning (09:00-11:59)''
          else if h \<ge> 12 \<and> h < 15 then ''Early Afternoon (12:00-14:59)''
          else if h \<ge> 15 \<and> h < 18 then ''Late Afternoon (15:00-17:59)''
          else if h \<ge> 18 \<and> h < 22 then ''Evening (18:00-21:59)''
          else if h \<ge> 22 \<and> h < 24 then ''Late Night (22:00-23:59)''
          else '''')"

text \<open>The body of the loop of \<open>getRadarData\<close>, on the pair of \<open>radarDataEnemy\<close> and
  \<open>radarDataExplosive\<close>.\<close>

definition radarStep ::
  "incident \<Rightarrow> jsnum object \<times> jsnum object \<Rightarrow> jsnum object \<times> jsnum object" where
  "radarStep i radar =
     (if time i = '''' then radar
      else
        (let hour = parseInt (hd (split CHR '':'' (time i)));
             c = timeCategory hour
         in if type i = ''Enemy Action'' then (increment (fst radar) c, snd radar)
            else if type i = ''Explosive Hazard'' then (fst radar, increment (snd radar) c)
            else radar))"

text \<open>The result: \<open>categories\<close> and \<open>values\<close> of \<open>enemy\<close>, then of \<open>explosive\<close>.\<close>

definition getRadarData ::
  "'a DataProcessor_scheme
     \<Rightarrow> (string list \<times> jsnum list) \<times> (string list \<times> jsnum list)" where
  "getRadarData this =
     (let radarDataEnemy = map (\<lambda>l. (l, Num 0)) radarLabels;
          radarDataExplosive = map (\<lambda>l. (l, Num 0)) radarLabels;
          radar = fold radarStep (allIncidents this) (radarDataEnemy, radarDataExplosive)
      in ((Object_keys (fst radar), Object_values (fst radar)),
          (Object_keys (snd radar), Object_values (snd radar))))"



section \<open>The second source of the class, in src/server.js\<close>

text \<open>
  The document that follows the server in \<open>src/server.js\<close> is the class again, changed in
  three places: the handler of \<open>data\<close> rewrites the date portion, the handler of \<open>end\<close>
  sorts the dates as strings and reads a third file, and \<open>getHeatmapData\<close> returns what
  that file held. The other methods are those of data-processor.js, word for word.
\<close>

definition constructor2 :: DataProcessor2 where
  "constructor2 =
     \<lparr>allIncidents = [], dateIndex = [], types = [], categories = [], provinces = [],
      dates = [], iraqBoundary = None, isLoaded = False, heatmapData = None\<rparr>"

text \<open>\<open>formattedDate\<close> as the handler computes it from \<open>datePart\<close>.\<close>

definition formattedDate :: "string \<Rightarrow> string" where
  "formattedDate datePart =
     (if String_includes datePart CHR ''/''
      then
        (let parts = split CHR ''/'' datePart
         in if length parts = 3
            then
              (let month = padStart 2 CHR ''0'' (parts ! 0);
                   day = padStart 2 CHR ''0'' (parts ! 1);
                   year = parts ! 2
               in year @ ''-'' @ month @ ''-'' @ day)
            else datePart)
      else datePart)"

definition onData2 ::
  "row \<Rightarrow> DataProcessor2 \<times> incident list \<Rightarrow> DataProcessor2 \<times> incident list" where
  "onData2 = onData_with formattedDate"

text \<open>\<open>heatmapFile\<close> is the text of the third file when \<open>heatmapJsonPath\<close> is given and
  the file exists; both texts are taken to be JSON, as in \<open>onEnd\<close>.\<close>

definition onEnd2 ::
  "string option \<Rightarrow> string option \<Rightarrow> DataProcessor2 \<times> incident list \<Rightarrow> DataProcessor2" where
  "onEnd2 boundaryFile heatmapFile st =
     (let this = fst st; incidents = snd st;
          this = this\<lparr>allIncidents := incidents\<rparr>;
          this = this\<lparr>dates := sort (map fst (dateIndex this))\<rparr>;
          this = (case boundaryFile of
                    Some txt \<Rightarrow> this\<lparr>iraqBoundary := Some (JSON_parse txt)\<rparr>
                  | None \<Rightarrow> this);
          this = (case heatmapFile of
                    Some txt \<Rightarrow> this\<lparr>heatmapData := Some (JSON_parse txt)\<rparr>
                  | None \<Rightarrow> this)
      in this\<lparr>isLoaded := True\<rparr>)"

definition loadData2 ::
  "row list \<Rightarrow> string option \<Rightarrow> string option \<Rightarrow> DataProcessor2 \<Rightarrow> DataProcessor2" where
  "loadData2 rows boundaryFile heatmapFile this =
     onEnd2 boundaryFile heatmapFile (fold onData2 rows (this, []))"



section \<open>The words of the specification\<close>

text \<open>The pattern \<open>YYYY-MM-DD\<close>: four digits, two digits, two digits.\<close>

definition canonicalDate :: "string \<Rightarrow> bool" where
  "canonicalDate s =
     (case split CHR ''-'' s of
        [y, m, d] \<Rightarrow>
          length y = 4 \<and> length m = 2 \<and> length d = 2 \<and> list_all isDigit (y @ m @ d)
      | _ \<Rightarrow> False)"

text \<open>The calendar value of a date written as year, month and day in digits with \<open>-\<close>
  between them, padded or not.\<close>

definition calendarValue :: "string \<Rightarrow> (int \<times> int \<times> int) option" where
  "calendarValue s =
     (case split CHR ''-'' s of
        [y, m, d] \<Rightarrow>
          if y \<noteq> [] \<and> m \<noteq> [] \<and> d \<noteq> [] \<and> list_all isDigit (y @ m @ d)
          then Some (decimal y, decimal m, decimal d) else None
      | _ \<Rightarrow> None)"

text \<open>\<open>lookupIncidents\<close> in the words of the specification: a filter is applied unless its
  value is absent or is \<open>all\<close>.\<close>

definition lookupIncidents ::
  "(string \<times> incident list) list \<Rightarrow> string \<Rightarrow> filters \<Rightarrow> incident list" where
  "lookupIncidents index d f =
     filter
       (\<lambda>i. (ftype f = None \<or> ftype f = Some ''all'' \<or> ftype f = Some (type i))
           \<and> (fcategory f = None \<or> fcategory f = Some ''all'' \<or> fcategory f = Some (category i))
           \<and> (fprovince f = None \<or> fprovince f = Some ''all'' \<or> fprovince f = Some (province i)))
       (case map_of index d of Some b \<Rightarrow> b | None \<Rightarrow> [])"

section \<open>Auxiliary definitions for the proofs\<close>

text \<open>The incident the handler of \<open>data\<close> makes of a row.\<close>

definition incidentOf :: "(string \<Rightarrow> string) \<Rightarrow> row \<Rightarrow> incident" where
  "incidentOf fmt r =
     \<lparr>lat = parseFloat (r ''mgrs_Y''),
      lng = parseFloat (r ''mgrs_X''),
      date = fmt (hd (split CHR '' '' (js_or (r ''date_time_occ'') ''''))),
      type = js_or (r ''Incident Type'') ''Unknown'',
      category = js_or (r ''Incident Category'') ''N/A'',
      targetCategory = js_or (r ''Target Category'') ''N/A'',
      target = js_or (r ''target'') ''N/A'',
      forceType = js_or (r ''force_type'') ''N/A'',
      city = js_or (r ''City'') ''N/A'',
      province = js_or (r ''Province'') ''N/A'',
      time = js_or (at_index (split CHR '' '' (js_or (r ''date_time_occ'') '''')) 1) ''''\<rparr>"

text \<open>The bucket of a date, and what the handler does to the date index.\<close>

definition bucketOf :: "(string \<times> incident list) list \<Rightarrow> string \<Rightarrow> incident list" where
  "bucketOf index d = (case map_of index d of Some b \<Rightarrow> b | None \<Rightarrow> [])"

definition indexAdd ::
  "incident \<Rightarrow> (string \<times> incident list) list \<Rightarrow> (string \<times> incident list) list" where
  "indexAdd i index = AList.update (date i) (bucketOf index (date i) @ [i]) index"

definition datesAgree :: "(string \<times> incident list) list \<Rightarrow> bool" where
  "datesAgree index = (\<forall>(k, b) \<in> set index. \<forall>r \<in> set b. date r = k)"

text \<open>The filters object \<open>{}\<close>.\<close>

definition noFilters :: filters where
  "noFilters = \<lparr>ftype = None, fcategory = None, fprovince = None\<rparr>"

text \<open>A source value that is missing or empty.\<close>

definition missingOrEmpty :: "string option \<Rightarrow> bool" where
  "missingOrEmpty v = (v = None \<or> v = Some '''')"

text \<open>
  Inputs for the examples: three rows, two of one day written with \<open>/\<close> and one of them
  without a type; and a reading of \<open>new Date\<close> that knows the dates written with \<open>-\<close>
  only, in milliseconds, with months of 31 days.
\<close>

definition exampleRows :: "row list" where
  "exampleRows =
     [[''date_time_occ'' \<mapsto> ''12/5/2007 14:23:00'', ''Incident Type'' \<mapsto> ''Enemy Action'',
       ''Incident Category'' \<mapsto> ''Direct Fire'', ''Province'' \<mapsto> ''Baghdad''],
      [''date_time_occ'' \<mapsto> ''2008-01-02'', ''Incident Type'' \<mapsto> '''',
       ''Province'' \<mapsto> ''Baghdad''],
      [''date_time_occ'' \<mapsto> ''12/5/2007 02:10:00'', ''Incident Type'' \<mapsto> ''Explosive Hazard'',
       ''Incident Category'' \<mapsto> ''IED Explosion'']]"

definition exampleNewDate :: "string \<Rightarrow> int option" where
  "exampleNewDate s =
     (case calendarValue s of
        Some (y, m, d) \<Rightarrow> Some (((y * 12 + m) * 31 + d) * 86400000)
      | None \<Rightarrow> None)"

text \<open>The date portion of the timestamp of a row.\<close>

definition datePortion :: "row \<Rightarrow> string" where
  "datePortion r = hd (split CHR '' '' (js_or (r ''date_time_occ'') ''''))"

text \<open>More inputs for the examples: rows whose date portion is not of the pattern (a day
  without padding, a date of two parts, no timestamp at all), two days of one month
  written without padding, and rows of a source that writes its dates with \<open>-\<close>.\<close>

definition malformedRows :: "row list" where
  "malformedRows =
     [[''date_time_occ'' \<mapsto> ''2007-12-5 10:00:00''],
      [''date_time_occ'' \<mapsto> ''5/2007''],
      Map.empty]"

definition unpaddedRows :: "row list" where
  "unpaddedRows =
     [[''date_time_occ'' \<mapsto> ''2007-12-5 08:00:00''],
      [''date_time_occ'' \<mapsto> ''2007-12-10 09:00:00'']]"

definition dashedRows :: "row list" where
  "dashedRows =
     [[''date_time_occ'' \<mapsto> ''2008-01-02 08:00:00''],
      [''date_time_occ'' \<mapsto> ''2007-12-05 09:00:00''],
      [''date_time_occ'' \<mapsto> ''2008-01-02 10:00:00'']]"

text \<open>The hour component of the time of a record, as \<open>getRadarData\<close> reads it, and whether it
  lies in a range of hours.\<close>

definition hourOf :: "incident \<Rightarrow> int option" where
  "hourOf i = parseInt (hd (split CHR '':'' (time i)))"

definition hourIn :: "int \<Rightarrow> int \<Rightarrow> incident \<Rightarrow> bool" where
  "hourIn lo hi i = (case hourOf i of Some h \<Rightarrow> lo \<le> h \<and> h < hi | None \<Rightarrow> False)"

text \<open>The seven buckets of the specification, in the order of the labels.\<close>

definition hourBuckets :: "(int \<times> int) list" where
  "hourBuckets = [(0, 4), (4, 9), (9, 12), (12, 15), (15, 18), (18, 22), (22, 24)]"

text \<open>The count a counter holds; \<open>NaN\<close> counts nothing.\<close>

definition numberOf :: "jsnum \<Rightarrow> nat" where
  "numberOf v = (case v of Num n \<Rightarrow> n | NaN \<Rightarrow> 0)"

text \<open>A record with a time and of a given type.\<close>

definition timed :: "string \<Rightarrow> incident \<Rightarrow> bool" where
  "timed t i = (time i \<noteq> '''' \<and> type i = t)"

text \<open>The object of \<open>getRadarData\<close> after the categories \<open>cs\<close> have been counted: the seven
  labels with their counts, and the key \<open>''\<close> with \<open>NaN\<close> once a category was empty.\<close>

definition radarObject :: "string list \<Rightarrow> jsnum object" where
  "radarObject cs =
     map (\<lambda>l. (l, Num (count_list cs l))) radarLabels
       @ (if '''' \<in> set cs then [('''', NaN)] else [])"

text \<open>Rows whose hour is in no bucket, and one whose hour is.\<close>

definition lateRows :: "row list" where
  "lateRows =
     [[''date_time_occ'' \<mapsto> ''2007-12-05 25:00:00'', ''Incident Type'' \<mapsto> ''Enemy Action''],
      [''date_time_occ'' \<mapsto> ''2007-12-05 noon'', ''Incident Type'' \<mapsto> ''Explosive Hazard''],
      [''date_time_occ'' \<mapsto> ''2007-12-05 23:59:00'', ''Incident Type'' \<mapsto> ''Enemy Action'']]"


definition keyOrder :: "string list \<Rightarrow> string list" where
  "keyOrder ks = sort_key decimal (filter isArrayIndex ks) @ filter (\<lambda>k. \<not> isArrayIndex k) ks"





definition inheritedRows :: "row list" where
  "inheritedRows =
     [[''date_time_occ'' \<mapsto> ''2007-12-05 10:00:00'', ''Incident Type'' \<mapsto> ''toString'',
       ''Incident Category'' \<mapsto> ''length'']]"


section \<open>Ingestion\<close>

lemma onData_with_eq:
  "onData_with fmt r (this, incidents) =
     (this\<lparr>types := Set_add (type (incidentOf fmt r)) (types this),
           categories := Set_add (category (incidentOf fmt r)) (categories this),
           provinces := Set_add (province (incidentOf fmt r)) (provinces this),
           dateIndex := indexAdd (incidentOf fmt r) (dateIndex this)\<rparr>,
      incidents @ [incidentOf fmt r])"
  by (cases "map_of (dateIndex this) (fmt (hd (split CHR '' '' (js_or (r ''date_time_occ'') ''''))))")
     (simp_all add: onData_with_def Let_def Map_has_def incidentOf_def indexAdd_def bucketOf_def
        update_conv')

lemma fold_onData_with:
  "fold (onData_with fmt) rows (this, incidents) =
     (this\<lparr>types := fold Set_add (map (\<lambda>r. type (incidentOf fmt r)) rows) (types this),
           categories := fold Set_add (map (\<lambda>r. category (incidentOf fmt r)) rows) (categories this),
           provinces := fold Set_add (map (\<lambda>r. province (incidentOf fmt r)) rows) (provinces this),
           dateIndex := fold indexAdd (map (incidentOf fmt) rows) (dateIndex this)\<rparr>,
      incidents @ map (incidentOf fmt) rows)"
proof (induction rows arbitrary: this incidents)
  case Nil
  show ?case by simp
next
  case (Cons r rows)
  show ?case by (simp add: onData_with_eq Cons.IH)
qed

lemma loadData_eq:
  "loadData newDate rows boundaryFile this =
     (let incs = map (incidentOf (\<lambda>d. d)) rows;
          index = fold indexAdd incs (dateIndex this)
      in this\<lparr>types := fold Set_add (map type incs) (types this),
               categories := fold Set_add (map category incs) (categories this),
               provinces := fold Set_add (map province incs) (provinces this),
               dateIndex := index,
               allIncidents := incs,
               dates := sort_by (date_minus newDate) (map fst index),
               iraqBoundary := (case boundaryFile of Some txt \<Rightarrow> Some (JSON_parse txt)
                                | None \<Rightarrow> iraqBoundary this),
               isLoaded := True\<rparr>)"
  by (cases boundaryFile)
     (simp_all add: loadData_def onData_def fold_onData_with onEnd_def Let_def comp_def)

lemma loadData2_eq:
  "loadData2 rows boundaryFile heatmapFile this =
     (let incs = map (incidentOf formattedDate) rows;
          index = fold indexAdd incs (dateIndex this)
      in this\<lparr>types := fold Set_add (map type incs) (types this),
               categories := fold Set_add (map category incs) (categories this),
               provinces := fold Set_add (map province incs) (provinces this),
               dateIndex := index,
               allIncidents := incs,
               dates := sort (map fst index),
               iraqBoundary := (case boundaryFile of Some txt \<Rightarrow> Some (JSON_parse txt)
                                | None \<Rightarrow> iraqBoundary this),
               heatmapData := (case heatmapFile of Some txt \<Rightarrow> Some (JSON_parse txt)
                                | None \<Rightarrow> heatmapData this),
               isLoaded := True\<rparr>)"
  by (cases boundaryFile; cases heatmapFile)
     (simp_all add: loadData2_def onData2_def fold_onData_with onEnd2_def Let_def comp_def)

lemma set_fold_Set_add: "set (fold Set_add xs s) = set xs \<union> set s"
  by (induction xs arbitrary: s) (auto simp: Set_add_def)

lemma distinct_fold_Set_add: "distinct s \<Longrightarrow> distinct (fold Set_add xs s)"
  by (induction xs arbitrary: s) (auto simp: Set_add_def)

lemma keys_indexAdd: "map fst (indexAdd i index) = Set_add (date i) (map fst index)"
  by (simp add: indexAdd_def update_keys Set_add_def)

lemma keys_fold_indexAdd:
  "map fst (fold indexAdd incs index) = fold Set_add (map date incs) (map fst index)"
  by (induction incs arbitrary: index) (simp_all add: keys_indexAdd)

lemma bucketOf_Nil: "bucketOf [] d = []"
  by (simp add: bucketOf_def)

lemma bucketOf_indexAdd:
  "bucketOf (indexAdd i index) d = (if date i = d then bucketOf index d @ [i] else bucketOf index d)"
  by (simp add: indexAdd_def bucketOf_def update_conv')

lemma bucketOf_fold_indexAdd:
  "bucketOf (fold indexAdd incs index) d = bucketOf index d @ filter (\<lambda>i. date i = d) incs"
  by (induction incs arbitrary: index) (simp_all add: bucketOf_indexAdd)

lemma set_update_subset: "set (AList.update k v al) \<subseteq> insert (k, v) (set al)"
  by (induction al) auto

lemma datesAgree_bucketOf: "datesAgree index \<Longrightarrow> r \<in> set (bucketOf index d) \<Longrightarrow> date r = d"
proof -
  assume a: "datesAgree index" and r: "r \<in> set (bucketOf index d)"
  from r obtain b where b: "map_of index d = Some b" "r \<in> set b"
    by (cases "map_of index d") (auto simp: bucketOf_def)
  from b(1) have "(d, b) \<in> set index" by (rule map_of_SomeD)
  with a b(2) show "date r = d" unfolding datesAgree_def by blast
qed

lemma datesAgree_indexAdd:
  assumes "datesAgree index"
  shows "datesAgree (indexAdd i index)"
proof -
  have "\<forall>r \<in> set (bucketOf index (date i) @ [i]). date r = date i"
    using assms by (auto dest: datesAgree_bucketOf)
  then show ?thesis
    using assms set_update_subset[of "date i" "bucketOf index (date i) @ [i]" index]
    unfolding datesAgree_def indexAdd_def by blast
qed

lemma datesAgree_fold: "datesAgree index \<Longrightarrow> datesAgree (fold indexAdd incs index)"
  by (induction incs arbitrary: index) (simp_all add: datesAgree_indexAdd)

section \<open>The sort and the buckets\<close>

lemma mset_insert_by: "mset (insert_by cmp v ys) = add_mset v (mset ys)"
  by (induction ys) (simp_all split: option.splits)

lemma mset_sort_by: "mset (sort_by cmp xs) = mset xs"
  by (induction xs) (simp_all add: sort_by_def mset_insert_by)

lemma sum_list_perm: "mset xs = mset ys \<Longrightarrow> sum_list (map f xs) = sum_list (map (f :: 'a \<Rightarrow> nat) ys)"
  by (metis mset_map sum_mset_sum_list)

lemma sum_list_indicator:
  "distinct ks \<Longrightarrow> a \<in> set ks \<Longrightarrow> (\<Sum>k\<leftarrow>ks. if a = k then 1 else 0) = (1::nat)"
  by (induction ks) (auto simp: sum_list_0)

lemma sum_list_filter_partition:
  "distinct ks \<Longrightarrow> f ` set xs \<subseteq> set ks
     \<Longrightarrow> (\<Sum>k\<leftarrow>ks. length (filter (\<lambda>x. f x = k) xs)) = length xs"
proof (induction xs)
  case Nil
  show ?case by simp
next
  case (Cons x xs)
  have "(\<Sum>k\<leftarrow>ks. length (filter (\<lambda>y. f y = k) (x # xs)))
        = (\<Sum>k\<leftarrow>ks. (if f x = k then 1 else 0) + length (filter (\<lambda>y. f y = k) xs))"
    by (rule arg_cong[where f = sum_list]) (rule map_cong, simp_all)
  also have "\<dots> = (\<Sum>k\<leftarrow>ks. if f x = k then 1 else 0) + (\<Sum>k\<leftarrow>ks. length (filter (\<lambda>y. f y = k) xs))"
    by (simp add: sum_list_addf)
  also have "\<dots> = 1 + length xs"
    using Cons by (simp add: sum_list_indicator)
  finally show ?case by simp
qed

lemma sum_buckets:
  assumes "index = fold indexAdd incs []"
  shows "(\<Sum>d\<leftarrow>map fst index. length (bucketOf index d)) = length incs"
proof -
  have keys: "map fst index = fold Set_add (map date incs) []"
    using assms by (simp add: keys_fold_indexAdd)
  have "distinct (map fst index)" "date ` set incs \<subseteq> set (map fst index)"
    unfolding keys by (simp_all add: distinct_fold_Set_add set_fold_Set_add)
  then have "(\<Sum>d\<leftarrow>map fst index. length (filter (\<lambda>i. date i = d) incs)) = length incs"
    by (rule sum_list_filter_partition)
  then show ?thesis
    using assms by (simp add: bucketOf_fold_indexAdd bucketOf_Nil)
qed

section \<open>Lookup\<close>

lemma applies_iff: "applies v \<longleftrightarrow> v \<noteq> None \<and> v \<noteq> Some '''' \<and> v \<noteq> Some ''all''"
  by (cases v) (simp_all add: applies_def js_or_def)

lemma getIncidents_eq:
  "getIncidents this d f =
     filter
       (\<lambda>i. (applies (ftype f) \<longrightarrow> Some (type i) = ftype f)
          \<and> (applies (fcategory f) \<longrightarrow> Some (category i) = fcategory f)
          \<and> (applies (fprovince f) \<longrightarrow> Some (province i) = fprovince f))
       (bucketOf (dateIndex this) d)"
  by (simp add: getIncidents_def bucketOf_def Let_def conj_commute)

lemma getIncidents_noFilters: "getIncidents this d noFilters = bucketOf (dateIndex this) d"
  by (simp add: getIncidents_eq noFilters_def applies_iff)

lemma getIncidents_subset: "set (getIncidents this d f) \<subseteq> set (bucketOf (dateIndex this) d)"
  by (auto simp: getIncidents_eq)

lemma js_or_eq: "js_or v d = (if missingOrEmpty v then d else the v)"
  by (cases v) (simp_all add: js_or_def missingOrEmpty_def)

section \<open>The claims on ingestion and lookup\<close>

text \<open>
  Claim C4, as the code has it. \<open>getIncidents\<close> returns the bucket of the date (the empty
  array for a date that is no key), narrowed by the equality filters on type, category
  and province, all of which a record must pass; a filter whose value is absent, is the
  empty string or is \<open>all\<close> is not applied. After a load into a new processor the
  result is the full record list, in its order, narrowed by the date and the filters.
  (In the words of the claim the empty string is a value like any other; the
  counterexample below is a call where that differs.)
\<close>

theorem lookup_is_filtered_bucket:
  "getIncidents this d f =
     filter
       (\<lambda>i. (ftype f \<in> {None, Some '''', Some ''all''} \<or> ftype f = Some (type i))
          \<and> (fcategory f \<in> {None, Some '''', Some ''all''} \<or> fcategory f = Some (category i))
          \<and> (fprovince f \<in> {None, Some '''', Some ''all''} \<or> fprovince f = Some (province i)))
       (case map_of (dateIndex this) d of Some b \<Rightarrow> b | None \<Rightarrow> [])
   \<and> getIncidents (loadData newDate rows boundaryFile constructor) d f =
     filter
       (\<lambda>i. date i = d
          \<and> (ftype f \<in> {None, Some '''', Some ''all''} \<or> ftype f = Some (type i))
          \<and> (fcategory f \<in> {None, Some '''', Some ''all''} \<or> fcategory f = Some (category i))
          \<and> (fprovince f \<in> {None, Some '''', Some ''all''} \<or> fprovince f = Some (province i)))
       (allIncidents (loadData newDate rows boundaryFile constructor))"
proof -
  have a: "\<And>this :: 'b DataProcessor_scheme. getIncidents this d f =
     filter
       (\<lambda>i. (ftype f \<in> {None, Some '''', Some ''all''} \<or> ftype f = Some (type i))
          \<and> (fcategory f \<in> {None, Some '''', Some ''all''} \<or> fcategory f = Some (category i))
          \<and> (fprovince f \<in> {None, Some '''', Some ''all''} \<or> fprovince f = Some (province i)))
       (bucketOf (dateIndex this) d)"
    unfolding getIncidents_eq applies_iff by (rule filter_cong) auto
  have b: "bucketOf (dateIndex (loadData newDate rows boundaryFile constructor)) d
         = filter (\<lambda>i. date i = d) (allIncidents (loadData newDate rows boundaryFile constructor))"
    by (simp add: loadData_eq Let_def constructor_def bucketOf_fold_indexAdd bucketOf_Nil)
  have c: "bucketOf (dateIndex this) d = (case map_of (dateIndex this) d of Some b \<Rightarrow> b | None \<Rightarrow> [])"
    by (simp add: bucketOf_def)
  show ?thesis
    by (simp only: a b c filter_filter simp_thms)
qed

theorem lookup_is_filtered_bucket_witness:
  "map time (getIncidents (loadData exampleNewDate exampleRows None constructor) ''12/5/2007''
       \<lparr>ftype = Some ''all'', fcategory = Some '''', fprovince = None\<rparr>)
     = [''14:23:00'', ''02:10:00'']
   \<and> map time (getIncidents (loadData exampleNewDate exampleRows None constructor) ''12/5/2007''
       \<lparr>ftype = Some ''Enemy Action'', fcategory = Some ''all'', fprovince = Some ''Baghdad''\<rparr>)
     = [''14:23:00'']
   \<and> getIncidents (loadData exampleNewDate exampleRows None constructor) ''2007-12-05'' noFilters = []"
proof -
  have a: "allIncidents (loadData exampleNewDate exampleRows None constructor)
           = map (incidentOf (\<lambda>d. d)) exampleRows"
    by (simp add: loadData_eq Let_def)
  show ?thesis
    unfolding lookup_is_filtered_bucket[THEN conjunct2] a
    by (simp add: exampleRows_def incidentOf_def js_or_def at_index_def noFilters_def)
qed

text \<open>
  Claim C4 as stated fails for a filter that is the empty string: the code does not apply
  it and returns both records of the day, where the filter of the claim, being neither
  absent nor \<open>all\<close>, keeps the records whose type is the empty string, of which there is
  none.
\<close>

theorem lookup_empty_filter_counterexample:
  "getIncidents (loadData exampleNewDate exampleRows None constructor) ''12/5/2007''
       \<lparr>ftype = Some '''', fcategory = None, fprovince = None\<rparr>
     \<noteq> lookupIncidents (dateIndex (loadData exampleNewDate exampleRows None constructor))
         ''12/5/2007'' \<lparr>ftype = Some '''', fcategory = None, fprovince = None\<rparr>
   \<and> length (getIncidents (loadData exampleNewDate exampleRows None constructor) ''12/5/2007''
       \<lparr>ftype = Some '''', fcategory = None, fprovince = None\<rparr>) = 2
   \<and> lookupIncidents (dateIndex (loadData exampleNewDate exampleRows None constructor))
         ''12/5/2007'' \<lparr>ftype = Some '''', fcategory = None, fprovince = None\<rparr> = []"
proof -
  have a: "length (getIncidents (loadData exampleNewDate exampleRows None constructor) ''12/5/2007''
       \<lparr>ftype = Some '''', fcategory = None, fprovince = None\<rparr>) = 2"
    by code_simp
  have b: "lookupIncidents (dateIndex (loadData exampleNewDate exampleRows None constructor))
         ''12/5/2007'' \<lparr>ftype = Some '''', fcategory = None, fprovince = None\<rparr> = []"
    by code_simp
  from a b show ?thesis by auto
qed

text \<open>
  Claim C7. After a load into a new processor, the lengths of \<open>getIncidents(date, {})\<close>
  over the dates of \<open>getDates()\<close> add up to the length of the full record list.
\<close>

theorem buckets_partition_fullList:
  "(\<Sum>d\<leftarrow>getDates (loadData newDate rows boundaryFile constructor).
       length (getIncidents (loadData newDate rows boundaryFile constructor) d noFilters))
     = length (allIncidents (loadData newDate rows boundaryFile constructor))"
proof -
  define incs where "incs = map (incidentOf (\<lambda>d. d)) rows"
  define index where "index = fold indexAdd incs []"
  have "(\<Sum>d\<leftarrow>sort_by (date_minus newDate) (map fst index). length (bucketOf index d))
        = (\<Sum>d\<leftarrow>map fst index. length (bucketOf index d))"
    by (rule sum_list_perm) (rule mset_sort_by)
  also have "\<dots> = length incs"
    using index_def by (rule sum_buckets)
  finally show ?thesis
    by (simp add: getIncidents_noFilters getDates_def loadData_eq Let_def constructor_def
        incs_def index_def)
qed

theorem buckets_partition_fullList_witness:
  "(\<Sum>d\<leftarrow>getDates (loadData exampleNewDate exampleRows None constructor).
       length (getIncidents (loadData exampleNewDate exampleRows None constructor) d noFilters)) = 3"
proof -
  have "length (allIncidents (loadData exampleNewDate exampleRows None constructor)) = 3"
    by (simp add: loadData_eq Let_def exampleRows_def)
  then show ?thesis
    using buckets_partition_fullList[of exampleNewDate exampleRows None] by simp
qed

text \<open>
  Claim C8. The record made of the \<open>k\<close>-th row has, in each classification field, the
  source value, or the fallback when that value is missing or empty: \<open>Unknown\<close> for the
  type and \<open>N/A\<close> for the category, target category, target, force type, city and
  province. When the type of the row is missing or empty, \<open>Unknown\<close> is among the types
  of \<open>getMetadata\<close>.
\<close>

theorem missing_fields_default:
  assumes "k < length rows"
  shows "(let r = rows ! k; i = allIncidents (loadData newDate rows boundaryFile this) ! k
          in type i = (if missingOrEmpty (r ''Incident Type'') then ''Unknown''
                       else the (r ''Incident Type''))
           \<and> category i = (if missingOrEmpty (r ''Incident Category'') then ''N/A''
                           else the (r ''Incident Category''))
           \<and> targetCategory i = (if missingOrEmpty (r ''Target Category'') then ''N/A''
                                 else the (r ''Target Category''))
           \<and> target i = (if missingOrEmpty (r ''target'') then ''N/A'' else the (r ''target''))
           \<and> forceType i = (if missingOrEmpty (r ''force_type'') then ''N/A''
                            else the (r ''force_type''))
           \<and> city i = (if missingOrEmpty (r ''City'') then ''N/A'' else the (r ''City''))
           \<and> province i = (if missingOrEmpty (r ''Province'') then ''N/A''
                           else the (r ''Province''))
           \<and> (missingOrEmpty (r ''Incident Type'')
                \<longrightarrow> ''Unknown'' \<in> set (fst (getMetadata (loadData newDate rows boundaryFile this)))))"
proof -
  define L where "L = loadData newDate rows boundaryFile this"
  have i: "allIncidents L ! k = incidentOf (\<lambda>d. d) (rows ! k)"
    using assms by (simp add: L_def loadData_eq Let_def)
  have "type (incidentOf (\<lambda>d. d) (rows ! k)) \<in> set (fst (getMetadata L))"
    using assms by (simp add: L_def getMetadata_def loadData_eq Let_def set_fold_Set_add)
  then have m: "missingOrEmpty ((rows ! k) ''Incident Type'')
                  \<longrightarrow> ''Unknown'' \<in> set (fst (getMetadata L))"
    by (simp add: incidentOf_def js_or_eq split: if_splits)
  show ?thesis
    unfolding L_def[symmetric] Let_def i using m by (simp add: incidentOf_def js_or_eq)
qed

theorem missing_fields_default_witness:
  "type (allIncidents (loadData exampleNewDate exampleRows None constructor) ! 1) = ''Unknown''
   \<and> category (allIncidents (loadData exampleNewDate exampleRows None constructor) ! 1) = ''N/A''
   \<and> province (allIncidents (loadData exampleNewDate exampleRows None constructor) ! 1) = ''Baghdad''
   \<and> fst (getMetadata (loadData exampleNewDate exampleRows None constructor))
       = [''Enemy Action'', ''Explosive Hazard'', ''Unknown'']"
proof -
  have h: "1 < length exampleRows" by (simp add: exampleRows_def)
  have m: "fst (getMetadata (loadData exampleNewDate exampleRows None constructor))
       = [''Enemy Action'', ''Explosive Hazard'', ''Unknown'']"
    by code_simp
  show ?thesis
    using missing_fields_default[OF h, of exampleNewDate None constructor] m
    by (simp add: Let_def exampleRows_def missingOrEmpty_def)
qed

text \<open>
  Claim C10. Ingestion keeps the invariant of the date index, in both sources of the
  class: if every record in every bucket has the date of its key before the load, so it
  is after the load; and every record \<open>getIncidents\<close> returns for a date has that date.
\<close>

theorem bucket_dates_agree:
  assumes "\<forall>(k, b) \<in> set (dateIndex this). \<forall>r \<in> set b. date r = k"
    and "\<forall>(k, b) \<in> set (dateIndex this2). \<forall>r \<in> set b. date r = k"
  shows "(\<forall>(k, b) \<in> set (dateIndex (loadData newDate rows boundaryFile this)).
            \<forall>r \<in> set b. date r = k)
       \<and> (\<forall>r \<in> set (getIncidents (loadData newDate rows boundaryFile this) d f). date r = d)
       \<and> (\<forall>(k, b) \<in> set (dateIndex (loadData2 rows2 boundaryFile heatmapFile this2)).
            \<forall>r \<in> set b. date r = k)
       \<and> (\<forall>r \<in> set (getIncidents (loadData2 rows2 boundaryFile heatmapFile this2) d f).
            date r = d)"
proof -
  have 1: "datesAgree (dateIndex (loadData newDate rows boundaryFile this))"
    using assms(1) by (simp add: loadData_eq Let_def datesAgree_fold datesAgree_def[symmetric])
  have 2: "datesAgree (dateIndex (loadData2 rows2 boundaryFile heatmapFile this2))"
    using assms(2) by (simp add: loadData2_eq Let_def datesAgree_fold datesAgree_def[symmetric])
  have 3: "\<And>this :: 'b DataProcessor_scheme. datesAgree (dateIndex this)
             \<Longrightarrow> \<forall>r \<in> set (getIncidents this d f). date r = d"
    using getIncidents_subset datesAgree_bucketOf by blast
  show ?thesis
    using 1 2 3[OF 1] 3[OF 2] by (simp add: datesAgree_def)
qed

theorem bucket_dates_agree_witness:
  "map (\<lambda>kb. (fst kb, map date (snd kb)))
       (dateIndex (loadData2 exampleRows None None constructor2))
     = [(''2007-12-05'', [''2007-12-05'', ''2007-12-05'']), (''2008-01-02'', [''2008-01-02''])]
   \<and> map date (getIncidents (loadData exampleNewDate exampleRows None constructor) ''12/5/2007''
                 noFilters) = [''12/5/2007'', ''12/5/2007'']
   \<and> list_all (\<lambda>r. date r = ''12/5/2007'')
        (getIncidents (loadData exampleNewDate exampleRows None constructor) ''12/5/2007'' noFilters)"
proof -
  have h1: "\<forall>(k, b) \<in> set (dateIndex constructor). \<forall>r \<in> set b. date r = k"
    by (simp add: constructor_def)
  have h2: "\<forall>(k, b) \<in> set (dateIndex constructor2). \<forall>r \<in> set b. date r = k"
    by (simp add: constructor2_def)
  have a: "map (\<lambda>kb. (fst kb, map date (snd kb)))
       (dateIndex (loadData2 exampleRows None None constructor2))
     = [(''2007-12-05'', [''2007-12-05'', ''2007-12-05'']), (''2008-01-02'', [''2008-01-02''])]"
    by code_simp
  have b: "map date (getIncidents (loadData exampleNewDate exampleRows None constructor) ''12/5/2007''
                 noFilters) = [''12/5/2007'', ''12/5/2007'']"
    by code_simp
  show ?thesis
    using bucket_dates_agree[OF h1 h2, of exampleNewDate exampleRows None "''12/5/2007''" noFilters]
      a b
    by (simp add: list_all_iff)
qed

section \<open>Dates\<close>

lemma split_ne: "split sep s \<noteq> []"
  by (induction s) (simp_all add: Let_def)

lemma split_no_sep: "sep \<notin> set s \<Longrightarrow> split sep s = [s]"
  by (induction s) (auto simp: Let_def)

lemma split_append: "sep \<notin> set a \<Longrightarrow> split sep (a @ sep # b) = a # split sep b"
  by (induction a) (auto simp: Let_def)

lemma split3:
  assumes "sep \<notin> set (a @ b @ c)"
  shows "split sep (a @ sep # b @ sep # c) = [a, b, c]"
  using assms by (simp add: split_append split_no_sep)

lemma set_split: "c \<in> set s \<Longrightarrow> c = sep \<or> (\<exists>p \<in> set (split sep s). c \<in> set p)"
proof (induction s)
  case Nil
  then show ?case by simp
next
  case (Cons a s)
  obtain p ps where ps: "split sep s = p # ps"
    using split_ne[of sep s] by (cases "split sep s") auto
  show ?case
    using Cons ps by (auto simp: Let_def)
qed

lemma formattedDate_three:
  assumes "CHR ''/'' \<notin> set (m @ d @ y)"
  shows "formattedDate (m @ ''/'' @ d @ ''/'' @ y)
         = y @ ''-'' @ padStart 2 CHR ''0'' m @ ''-'' @ padStart 2 CHR ''0'' d"
  using split3[OF assms] by (simp add: formattedDate_def String_includes_def Let_def)

lemma formattedDate_no_slash: "CHR ''/'' \<notin> set s \<Longrightarrow> formattedDate s = s"
  by (simp add: formattedDate_def String_includes_def)

lemma formattedDate_not_three:
  "length (split CHR ''/'' s) \<noteq> 3 \<Longrightarrow> formattedDate s = s"
  by (simp add: formattedDate_def Let_def)

lemma not_isDigit_slash_dash: "\<not> isDigit CHR ''/''" "\<not> isDigit CHR ''-''"
  by (simp_all add: isDigit_def)

lemma digits_no_slash: "list_all isDigit s \<Longrightarrow> CHR ''/'' \<notin> set s"
  using not_isDigit_slash_dash(1) unfolding list_all_iff by blast

lemma digits_no_dash: "list_all isDigit s \<Longrightarrow> CHR ''-'' \<notin> set s"
  using not_isDigit_slash_dash(2) unfolding list_all_iff by blast

lemma canonicalDate_no_slash:
  assumes "canonicalDate s"
  shows "CHR ''/'' \<notin> set s"
proof
  assume "CHR ''/'' \<in> set s"
  then obtain p where p: "p \<in> set (split CHR ''-'' s)" "CHR ''/'' \<in> set p"
    using set_split[of "CHR ''/''" s "CHR ''-''"] by auto
  from assms obtain y m d where "split CHR ''-'' s = [y, m, d]" "list_all isDigit (y @ m @ d)"
    by (auto simp: canonicalDate_def split: list.splits)
  with p have "CHR ''/'' \<in> set (y @ m @ d)" by auto
  with \<open>list_all isDigit (y @ m @ d)\<close> show False
    using digits_no_slash by blast
qed

lemma isDigit_0: "isDigit CHR ''0''"
  by (simp add: isDigit_def)

lemma padStart_digits:
  "s \<noteq> [] \<Longrightarrow> length s \<le> 2 \<Longrightarrow> list_all isDigit s
     \<Longrightarrow> length (padStart 2 CHR ''0'' s) = 2 \<and> list_all isDigit (padStart 2 CHR ''0'' s)"
  by (auto simp: padStart_def isDigit_0 list_all_iff)

lemma canonicalDate_build:
  assumes "length y = 4" "list_all isDigit y" "length m = 2" "list_all isDigit m"
    "length d = 2" "list_all isDigit d"
  shows "canonicalDate (y @ ''-'' @ m @ ''-'' @ d)"
proof -
  have "CHR ''-'' \<notin> set (y @ m @ d)"
    using assms digits_no_dash by auto
  then have "split CHR ''-'' (y @ ''-'' @ m @ ''-'' @ d) = [y, m, d]"
    using split3[of "CHR ''-''" y m d] by simp
  then show ?thesis
    using assms by (simp add: canonicalDate_def)
qed

lemma date_loadData2:
  "k < length rows
     \<Longrightarrow> date (allIncidents (loadData2 rows boundaryFile heatmapFile this) ! k)
         = formattedDate (datePortion (rows ! k))"
  by (simp add: loadData2_eq Let_def incidentOf_def datePortion_def)

lemma date_loadData:
  "k < length rows
     \<Longrightarrow> date (allIncidents (loadData newDate rows boundaryFile this) ! k) = datePortion (rows ! k)"
  by (simp add: loadData_eq Let_def incidentOf_def datePortion_def)

lemma date_minus_Some:
  "newDate a = Some m \<Longrightarrow> newDate b = Some n \<Longrightarrow> date_minus newDate a b = Some (m - n)"
  by (simp add: date_minus_def)

lemma insert_by_sorted:
  assumes "\<forall>k \<in> set (v # ys). newDate k \<noteq> None" "sorted (map (\<lambda>k. the (newDate k)) ys)"
  shows "sorted (map (\<lambda>k. the (newDate k)) (insert_by (date_minus newDate) v ys))"
  using assms
proof (induction ys)
  case Nil
  then show ?case by simp
next
  case (Cons y ys)
  obtain a b where ab: "newDate v = Some a" "newDate y = Some b"
    using Cons.prems(1) by auto
  have s: "set (insert_by (date_minus newDate) v ys) = insert v (set ys)"
    using mset_insert_by[of "date_minus newDate" v ys] by (metis set_mset_add_mset_insert set_mset_mset)
  show ?case
  proof (cases "0 < a - b")
    case True
    then show ?thesis
      using Cons ab s by (auto simp: date_minus_Some)
  next
    case False
    then show ?thesis
      using Cons ab by (auto simp: date_minus_Some)
  qed
qed

lemma sort_by_sorted:
  "\<forall>k \<in> set ks. newDate k \<noteq> None
     \<Longrightarrow> sorted (map (\<lambda>k. the (newDate k)) (sort_by (date_minus newDate) ks))"
proof (induction ks)
  case Nil
  then show ?case by (simp add: sort_by_def)
next
  case (Cons k ks)
  have "set (sort_by (date_minus newDate) ks) = set ks"
    using mset_sort_by[of "date_minus newDate" ks] by (metis set_mset_mset)
  then have "sorted (map (\<lambda>k. the (newDate k)) (insert_by (date_minus newDate) k (sort_by (date_minus newDate) ks)))"
    using Cons by (intro insert_by_sorted) auto
  then show ?case by (simp add: sort_by_def)
qed

lemma set_sort_by: "set (sort_by cmp xs) = set xs"
  using mset_sort_by[of cmp xs] by (metis set_mset_mset)

lemma distinct_sort_by: "distinct (sort_by cmp xs) = distinct xs"
  using mset_sort_by[of cmp xs] by (metis distinct_count_atmost_1 set_mset_mset count_mset)

lemma keys_loadData:
  "map fst (dateIndex (loadData newDate rows boundaryFile constructor))
     = fold Set_add (map (\<lambda>r. datePortion r) rows) []"
  by (simp add: loadData_eq Let_def constructor_def keys_fold_indexAdd incidentOf_def
      datePortion_def comp_def)

lemma keys_loadData2:
  "map fst (dateIndex (loadData2 rows boundaryFile heatmapFile constructor2))
     = fold Set_add (map (\<lambda>r. formattedDate (datePortion r)) rows) []"
  by (simp add: loadData2_eq Let_def constructor2_def keys_fold_indexAdd incidentOf_def
      datePortion_def comp_def)

lemma getDates_loadData:
  "getDates (loadData newDate rows boundaryFile this)
     = sort_by (date_minus newDate) (map fst (dateIndex (loadData newDate rows boundaryFile this)))"
  by (simp add: getDates_def loadData_eq Let_def)

lemma getDates_loadData2:
  "getDates (loadData2 rows boundaryFile heatmapFile this)
     = sort (map fst (dateIndex (loadData2 rows boundaryFile heatmapFile this)))"
  by (simp add: getDates_def loadData2_eq Let_def)

lemma of_char_digit: "isDigit c \<Longrightarrow> 48 \<le> (of_char c :: nat) \<and> (of_char c :: nat) \<le> 57"
  unfolding isDigit_def by (elim disjE | simp)+

lemma digit_of_char: "digit c = int (of_char c) - 48"
  by (simp add: digit_def of_nat_of_char)

lemma digit_range: "isDigit c \<Longrightarrow> 0 \<le> digit c \<and> digit c \<le> 9"
  using of_char_digit[of c] by (simp add: digit_of_char)

lemma digit_less: "isDigit c \<Longrightarrow> isDigit c' \<Longrightarrow> (c < c') = (digit c < digit c')"
  using of_char_digit[of c] of_char_digit[of c'] by (simp add: digit_of_char less_char_def)

lemma digit_eq: "isDigit c \<Longrightarrow> isDigit c' \<Longrightarrow> (c = c') = (digit c = digit c')"
  using of_char_digit[of c] of_char_digit[of c'] by (auto simp: digit_of_char)

lemma foldl_decimal:
  "foldl (\<lambda>a c. 10 * a + digit c) acc s = acc * 10 ^ length s + decimal s"
proof (induction s arbitrary: acc)
  case Nil
  show ?case by (simp add: decimal_def)
next
  case (Cons c s)
  show ?case
    using Cons[of "10 * acc + digit c"] Cons[of "digit c"]
    by (simp add: decimal_def algebra_simps)
qed

lemma decimal_Cons: "decimal (c # s) = digit c * 10 ^ length s + decimal s"
  using foldl_decimal[of "digit c" s] by (simp add: decimal_def)

lemma decimal_bound: "list_all isDigit s \<Longrightarrow> 0 \<le> decimal s \<and> decimal s < 10 ^ length s"
proof (induction s)
  case Nil
  show ?case by (simp add: decimal_def)
next
  case (Cons c s)
  define n where "n = (10::int) ^ length s"
  have d: "0 \<le> digit c" "digit c \<le> 9" using Cons.prems digit_range by auto
  have i: "0 \<le> decimal s" "decimal s < n" using Cons by (auto simp: n_def)
  have n: "0 \<le> n" by (simp add: n_def)
  have u: "digit c * n \<le> 9 * n"
    using d(2) n by (rule mult_right_mono)
  have l: "0 \<le> digit c * n"
    using d(1) n by simp
  have "0 \<le> digit c * n + decimal s \<and> digit c * n + decimal s < 10 * n"
    using u l i by linarith
  then show ?case
    by (simp add: decimal_Cons n_def)
qed

lemma base_compare:
  fixes n :: int
  assumes "0 \<le> r" "r < n" "0 \<le> r'" "r' < n"
  shows "(q * n + r < q' * n + r') = (q < q' \<or> q = q' \<and> r < r')"
proof -
  have n: "0 \<le> n" using assms by linarith
  consider "q < q'" | "q = q'" | "q' < q" by linarith
  then show ?thesis
  proof cases
    case 1
    then have "q + 1 \<le> q'" by simp
    then have "(q + 1) * n \<le> q' * n" using n by (rule mult_right_mono)
    then have "q * n + n \<le> q' * n" by (simp add: algebra_simps)
    then show ?thesis using 1 assms by simp
  next
    case 2
    then show ?thesis by simp
  next
    case 3
    then have "q' + 1 \<le> q" by simp
    then have "(q' + 1) * n \<le> q * n" using n by (rule mult_right_mono)
    then have "q' * n + n \<le> q * n" by (simp add: algebra_simps)
    then show ?thesis using 3 assms by simp
  qed
qed

lemma decimal_order:
  assumes "length a = length b" "list_all isDigit a" "list_all isDigit b"
  shows "(a < b) = (decimal a < decimal b) \<and> (a = b) = (decimal a = decimal b)"
  using assms
proof (induction a b rule: list_induct2)
  case Nil
  show ?case by simp
next
  case (Cons x xs y ys)
  define n where "n = (10::int) ^ length xs"
  have len: "(10::int) ^ length ys = n" using Cons.hyps by (simp add: n_def)
  have b: "0 \<le> decimal xs" "decimal xs < n" "0 \<le> decimal ys" "decimal ys < n"
    using Cons.prems decimal_bound[of xs] decimal_bound[of ys] len by (auto simp: n_def)
  have dx: "(x < y) = (digit x < digit y)" "(x = y) = (digit x = digit y)"
    using Cons.prems digit_less digit_eq by auto
  have ih: "(xs < ys) = (decimal xs < decimal ys)" "(xs = ys) = (decimal xs = decimal ys)"
    using Cons by auto
  have lt: "(digit x * n + decimal xs < digit y * n + decimal ys)
              = (digit x < digit y \<or> digit x = digit y \<and> decimal xs < decimal ys)"
    using b by (rule base_compare)
  have gt: "(digit y * n + decimal ys < digit x * n + decimal xs)
              = (digit y < digit x \<or> digit y = digit x \<and> decimal ys < decimal xs)"
    using b(3,4,1,2) by (rule base_compare)
  have eq: "(digit x * n + decimal xs = digit y * n + decimal ys)
              = (digit x = digit y \<and> decimal xs = decimal ys)"
    using lt gt by linarith
  show ?case
    unfolding decimal_Cons len n_def[symmetric] using lt eq dx ih by simp
qed

lemma less_append_same_length:
  "length a = length b \<Longrightarrow> (a @ r < b @ r') = (a < b \<or> a = b \<and> r < r')"
  by (induction a b rule: list_induct2) auto

lemma split_join: "split sep s = p # ps \<Longrightarrow> s = p @ concat (map (\<lambda>q. sep # q) ps)"
proof (induction s arbitrary: p ps)
  case Nil
  then show ?case by simp
next
  case (Cons c s)
  obtain q qs where q: "split sep s = q # qs"
    using split_ne[of sep s] by (cases "split sep s") auto
  have s: "s = q @ concat (map (\<lambda>q. sep # q) qs)"
    using q by (rule Cons.IH)
  show ?case
  proof (cases "c = sep")
    case True
    then have "p = []" "ps = q # qs"
      using Cons.prems q by (simp_all add: Let_def)
    then show ?thesis
      using s True by simp
  next
    case False
    then have "p = c # q" "ps = qs"
      using Cons.prems q by (simp_all add: Let_def)
    then show ?thesis
      using s by simp
  qed
qed

lemma canonicalDate_parts:
  assumes "canonicalDate s"
  obtains y m d where "s = y @ ''-'' @ m @ ''-'' @ d" "length y = 4" "length m = 2" "length d = 2"
    "list_all isDigit y" "list_all isDigit m" "list_all isDigit d"
    "calendarValue s = Some (decimal y, decimal m, decimal d)"
proof -
  from assms obtain y m d where p: "split CHR ''-'' s = [y, m, d]" "length y = 4" "length m = 2"
      "length d = 2" "list_all isDigit (y @ m @ d)"
    by (auto simp: canonicalDate_def split: list.splits)
  have "s = y @ ''-'' @ m @ ''-'' @ d"
    using split_join[OF p(1)] by simp
  moreover have "calendarValue s = Some (decimal y, decimal m, decimal d)"
    using p by (auto simp: calendarValue_def)
  ultimately show ?thesis
    using p that by auto
qed

lemma canonical_order:
  assumes "canonicalDate a" "canonicalDate b"
  shows "(a < b) = (the (calendarValue a) < the (calendarValue b))"
proof -
  obtain y m d where a: "a = y @ ''-'' @ m @ ''-'' @ d" "length y = 4" "length m = 2" "length d = 2"
    "list_all isDigit y" "list_all isDigit m" "list_all isDigit d"
    "calendarValue a = Some (decimal y, decimal m, decimal d)"
    using assms(1) by (rule canonicalDate_parts)
  obtain y' m' d' where b: "b = y' @ ''-'' @ m' @ ''-'' @ d'" "length y' = 4" "length m' = 2"
    "length d' = 2" "list_all isDigit y'" "list_all isDigit m'" "list_all isDigit d'"
    "calendarValue b = Some (decimal y', decimal m', decimal d')"
    using assms(2) by (rule canonicalDate_parts)
  have oy: "(y < y') = (decimal y < decimal y')" "(y = y') = (decimal y = decimal y')"
    using decimal_order[of y y'] a b by auto
  have om: "(m < m') = (decimal m < decimal m')" "(m = m') = (decimal m = decimal m')"
    using decimal_order[of m m'] a b by auto
  have od: "(d < d') = (decimal d < decimal d')"
    using decimal_order[of d d'] a b by auto
  have "(a < b) = (y < y' \<or> y = y' \<and> (m < m' \<or> m = m' \<and> d < d'))"
    unfolding a(1) b(1)
    using a(2,3) b(2,3) by (simp add: less_append_same_length)
  then show ?thesis
    unfolding a(8) b(8) using oy om od by (auto simp: less_prod_def)
qed

lemma strict_sorted_sort: "distinct ks \<Longrightarrow> sorted_wrt (<) (sort ks)"
  by (simp add: strict_sorted_iff)

lemma strict_sorted_map:
  assumes "sorted (map f ks)" "distinct ks" "inj_on f (set ks)"
  shows "sorted_wrt (<) (map f ks)"
  using assms by (simp add: strict_sorted_iff distinct_map)

lemma calendar_sorted:
  assumes "sorted_wrt (<) ks" "\<forall>k \<in> set ks. canonicalDate k"
  shows "sorted_wrt (<) (map (\<lambda>k. the (calendarValue k)) ks)"
proof -
  have "sorted_wrt (\<lambda>a b. the (calendarValue a) < the (calendarValue b)) ks"
    using assms(1)
  proof (rule sorted_wrt_mono_rel[rotated])
    fix a b
    assume "a \<in> set ks" "b \<in> set ks" "a < b"
    then show "the (calendarValue a) < the (calendarValue b)"
      using assms(2) canonical_order[of a b] by simp
  qed
  then show ?thesis
    by (simp add: sorted_wrt_map)
qed

section \<open>The claims on dates\<close>

text \<open>
  Claim C1, as the second source of the class has it (data-processor.js has no rewriting:
  \<open>date_loadData\<close> above). The date of the record made of the \<open>k\<close>-th row is: for a date
  portion with \<open>/\<close> that splits at \<open>/\<close> into exactly three parts \<open>m\<close>, \<open>d\<close>, \<open>y\<close>, the string
  \<open>y-m-d\<close> with \<open>m\<close> and \<open>d\<close> padded with \<open>0\<close> on the left to two characters; the date
  portion unchanged when it has no \<open>/\<close> or does not split into three parts. The date is
  of the pattern \<open>YYYY-MM-DD\<close> when the date portion is a month and a day of one or two
  digits and a year of four digits with \<open>/\<close> between them, and when the date portion is
  of the pattern already.
\<close>

theorem date_rewritten:
  assumes "k < length rows"
  shows "(let datePart = datePortion (rows ! k);
              i = allIncidents (loadData2 rows boundaryFile heatmapFile this) ! k
          in (datePart = m @ ''/'' @ d @ ''/'' @ y \<and> CHR ''/'' \<notin> set (m @ d @ y)
                \<longrightarrow> date i = y @ ''-'' @ padStart 2 CHR ''0'' m @ ''-'' @ padStart 2 CHR ''0'' d)
           \<and> (CHR ''/'' \<notin> set datePart \<longrightarrow> date i = datePart)
           \<and> (length (split CHR ''/'' datePart) \<noteq> 3 \<longrightarrow> date i = datePart)
           \<and> (datePart = m @ ''/'' @ d @ ''/'' @ y
                  \<and> m \<noteq> [] \<and> length m \<le> 2 \<and> d \<noteq> [] \<and> length d \<le> 2 \<and> length y = 4
                  \<and> list_all isDigit (m @ d @ y)
                \<longrightarrow> canonicalDate (date i))
           \<and> (canonicalDate datePart \<longrightarrow> date i = datePart))"
proof -
  have a: "canonicalDate (formattedDate (m @ ''/'' @ d @ ''/'' @ y))"
    if h: "list_all isDigit (m @ d @ y)" "m \<noteq> []" "length m \<le> 2" "d \<noteq> []" "length d \<le> 2"
      "length y = 4"
  proof -
    have "CHR ''/'' \<notin> set (m @ d @ y)"
      using h(1) by (rule digits_no_slash)
    then have "formattedDate (m @ ''/'' @ d @ ''/'' @ y)
               = y @ ''-'' @ padStart 2 CHR ''0'' m @ ''-'' @ padStart 2 CHR ''0'' d"
      by (rule formattedDate_three)
    moreover have "canonicalDate (y @ ''-'' @ padStart 2 CHR ''0'' m @ ''-'' @ padStart 2 CHR ''0'' d)"
      using h padStart_digits[of m] padStart_digits[of d] by (intro canonicalDate_build) simp_all
    ultimately show ?thesis
      by simp
  qed
  have b: "CHR ''/'' \<notin> set (m @ d @ y)
            \<Longrightarrow> formattedDate (m @ ''/'' @ d @ ''/'' @ y)
                = y @ ''-'' @ padStart 2 CHR ''0'' m @ ''-'' @ padStart 2 CHR ''0'' d"
    by (rule formattedDate_three)
  have c: "canonicalDate (datePortion (rows ! k))
             \<Longrightarrow> formattedDate (datePortion (rows ! k)) = datePortion (rows ! k)"
    by (simp add: canonicalDate_no_slash formattedDate_no_slash)
  show ?thesis
    unfolding Let_def date_loadData2[OF assms]
    using a b c by (auto simp: formattedDate_no_slash formattedDate_not_three)
qed

theorem date_rewritten_witness:
  "date (allIncidents (loadData2 exampleRows None None constructor2) ! 0) = ''2007-12-05''
   \<and> canonicalDate (date (allIncidents (loadData2 exampleRows None None constructor2) ! 0))
   \<and> datePortion (exampleRows ! 0) = ''12/5/2007''
   \<and> date (allIncidents (loadData2 exampleRows None None constructor2) ! 1) = ''2008-01-02''
   \<and> canonicalDate (datePortion (exampleRows ! 1))
   \<and> date (allIncidents (loadData2 malformedRows None None constructor2) ! 1) = ''5/2007''"
proof -
  have h: "0 < length exampleRows" "1 < length exampleRows" "1 < length malformedRows"
    by (simp_all add: exampleRows_def malformedRows_def)
  have p: "datePortion (exampleRows ! 0) = ''12/5/2007''"
      "datePortion (exampleRows ! 1) = ''2008-01-02''"
      "datePortion (malformedRows ! 1) = ''5/2007''"
    by (simp_all add: exampleRows_def malformedRows_def datePortion_def js_or_def)
  have c: "canonicalDate ''2008-01-02''" "canonicalDate ''2007-12-05''"
      "length (split CHR ''/'' ''5/2007'') \<noteq> 3"
      "list_all isDigit ''1252007''" "padStart 2 CHR ''0'' ''12'' = ''12''"
      "padStart 2 CHR ''0'' ''5'' = ''05''"
    by (simp_all add: canonicalDate_def isDigit_def padStart_def)
  show ?thesis
    using date_rewritten[OF h(1), where m = "''12''" and d = "''5''" and y = "''2007''"
          and boundaryFile = None and heatmapFile = None and this = constructor2]
      date_rewritten[OF h(2), where m = "[]" and d = "[]" and y = "[]"
          and boundaryFile = None and heatmapFile = None and this = constructor2]
      date_rewritten[OF h(3), where m = "[]" and d = "[]" and y = "[]"
          and boundaryFile = None and heatmapFile = None and this = constructor2] p c
    by (simp add: Let_def)
qed

text \<open>
  Claim C1 as stated fails: not every record's date is of the pattern \<open>YYYY-MM-DD\<close>. In
  the second source a day without padding, a date of two parts and a missing timestamp
  are stored as they are; data-processor.js stores \<open>12/5/2007\<close> as it is.
\<close>

theorem date_pattern_counterexample:
  "date (allIncidents (loadData2 malformedRows None None constructor2) ! 0) = ''2007-12-5''
   \<and> \<not> canonicalDate ''2007-12-5''
   \<and> date (allIncidents (loadData2 malformedRows None None constructor2) ! 1) = ''5/2007''
   \<and> \<not> canonicalDate ''5/2007''
   \<and> date (allIncidents (loadData2 malformedRows None None constructor2) ! 2) = ''''
   \<and> \<not> canonicalDate ''''
   \<and> date (allIncidents (loadData exampleNewDate exampleRows None constructor) ! 0) = ''12/5/2007''
   \<and> \<not> canonicalDate ''12/5/2007''"
  by code_simp

text \<open>
  Claim C3, as the code has it. After a load into a new processor \<open>getDates\<close> returns
  exactly the keys of the date index, without duplicates. In data-processor.js they are
  in the order of \<open>new Date(a) - new Date(b)\<close>: ascending by time value when every key is
  a valid date, strictly when moreover no two keys have the same time value. In the
  second source they are strictly ascending as strings, which is the order of the
  calendar when every key is of the pattern \<open>YYYY-MM-DD\<close>.
\<close>

theorem dates_sorted_keys:
  assumes "L = loadData newDate rows boundaryFile constructor"
    and "L2 = loadData2 rows2 boundaryFile heatmapFile constructor2"
  shows "set (getDates L) = fst ` set (dateIndex L) \<and> distinct (getDates L)
       \<and> ((\<forall>k \<in> set (getDates L). newDate k \<noteq> None)
            \<longrightarrow> sorted (map (\<lambda>k. the (newDate k)) (getDates L)))
       \<and> ((\<forall>k \<in> set (getDates L). newDate k \<noteq> None) \<and> inj_on newDate (set (getDates L))
            \<longrightarrow> sorted_wrt (<) (map (\<lambda>k. the (newDate k)) (getDates L)))
       \<and> set (getDates L2) = fst ` set (dateIndex L2)
       \<and> sorted_wrt (<) (getDates L2)
       \<and> ((\<forall>k \<in> set (getDates L2). canonicalDate k)
            \<longrightarrow> sorted_wrt (<) (map (\<lambda>k. the (calendarValue k)) (getDates L2)))"
proof -
  define ks where "ks = map fst (dateIndex L)"
  define ks2 where "ks2 = map fst (dateIndex L2)"
  have g: "getDates L = sort_by (date_minus newDate) ks" "getDates L2 = sort ks2"
    unfolding ks_def ks2_def assms by (rule getDates_loadData, rule getDates_loadData2)
  have d: "distinct ks" "distinct ks2"
    unfolding ks_def ks2_def assms
    by (simp_all add: keys_loadData keys_loadData2 distinct_fold_Set_add)
  have 1: "set (getDates L) = fst ` set (dateIndex L)" "set (getDates L2) = fst ` set (dateIndex L2)"
    unfolding g by (simp_all add: set_sort_by ks_def ks2_def)
  have 2: "distinct (getDates L)"
    unfolding g using d by (simp add: distinct_sort_by)
  have 3: "sorted (map (\<lambda>k. the (newDate k)) (getDates L))"
    if "\<forall>k \<in> set (getDates L). newDate k \<noteq> None"
    using that unfolding g by (intro sort_by_sorted) (simp add: set_sort_by)
  have 4: "sorted_wrt (<) (map (\<lambda>k. the (newDate k)) (getDates L))"
    if v: "\<forall>k \<in> set (getDates L). newDate k \<noteq> None" and i: "inj_on newDate (set (getDates L))"
  proof (rule strict_sorted_map)
    show "sorted (map (\<lambda>k. the (newDate k)) (getDates L))" using v by (rule 3)
    show "distinct (getDates L)" by (rule 2)
    show "inj_on (\<lambda>k. the (newDate k)) (set (getDates L))"
    proof (rule inj_onI)
      fix a b
      assume ab: "a \<in> set (getDates L)" "b \<in> set (getDates L)" "the (newDate a) = the (newDate b)"
      then have "newDate a = newDate b" using v by (metis option.expand)
      then show "a = b" using i ab by (simp add: inj_on_def)
    qed
  qed
  have 5: "sorted_wrt (<) (getDates L2)"
    unfolding g using d by (simp add: strict_sorted_sort)
  have 6: "sorted_wrt (<) (map (\<lambda>k. the (calendarValue k)) (getDates L2))"
    if "\<forall>k \<in> set (getDates L2). canonicalDate k"
    using 5 that by (rule calendar_sorted)
  show ?thesis
    using 1 2 3 4 5 6 by blast
qed

theorem dates_sorted_keys_witness:
  "getDates (loadData exampleNewDate dashedRows None constructor) = [''2007-12-05'', ''2008-01-02'']
   \<and> map (\<lambda>k. the (exampleNewDate k)) (getDates (loadData exampleNewDate dashedRows None constructor))
       = [64539158400000, 64541577600000]
   \<and> sorted_wrt (<)
        (map (\<lambda>k. the (exampleNewDate k)) (getDates (loadData exampleNewDate dashedRows None constructor)))
   \<and> getDates (loadData2 exampleRows None None constructor2) = [''2007-12-05'', ''2008-01-02'']
   \<and> sorted_wrt (<)
        (map (\<lambda>k. the (calendarValue k)) (getDates (loadData2 exampleRows None None constructor2)))"
proof -
  have a: "getDates (loadData exampleNewDate dashedRows None constructor)
           = [''2007-12-05'', ''2008-01-02'']"
    by code_simp
  have b: "getDates (loadData2 exampleRows None None constructor2) = [''2007-12-05'', ''2008-01-02'']"
    by code_simp
  have c: "exampleNewDate ''2007-12-05'' = Some 64539158400000"
      "exampleNewDate ''2008-01-02'' = Some 64541577600000"
      "canonicalDate ''2007-12-05''" "canonicalDate ''2008-01-02''"
    by code_simp+
  have v: "\<forall>k \<in> set (getDates (loadData exampleNewDate dashedRows None constructor)).
             exampleNewDate k \<noteq> None"
    unfolding a using c by simp
  have i: "inj_on exampleNewDate (set (getDates (loadData exampleNewDate dashedRows None constructor)))"
    unfolding a using c by simp
  have k: "\<forall>k \<in> set (getDates (loadData2 exampleRows None None constructor2)). canonicalDate k"
    unfolding b using c by simp
  show ?thesis
    using dates_sorted_keys[OF refl refl, of exampleNewDate dashedRows None exampleRows None] v i k a b c
    by simp
qed

text \<open>
  Claim C3 as stated fails in the second source, which sorts the keys as strings: of two
  days of December written without padding the tenth comes before the fifth.
\<close>

theorem dates_calendar_order_counterexample:
  "getDates (loadData2 unpaddedRows None None constructor2) = [''2007-12-10'', ''2007-12-5'']
   \<and> calendarValue ''2007-12-10'' = Some (2007, 12, 10)
   \<and> calendarValue ''2007-12-5'' = Some (2007, 12, 5)
   \<and> \<not> ((2007, 12, 10) < ((2007, 12, 5) :: int \<times> int \<times> int))"
  by code_simp

section \<open>The radar histograms\<close>

lemma entries_no_index: "\<forall>p \<in> set obj. \<not> isArrayIndex (fst p) \<Longrightarrow> entries obj = obj"
  by (simp add: entries_def filter_id_conv filter_empty_conv[THEN iffD2])

lemma update_map_keys:
  "k \<in> set ls \<Longrightarrow> distinct ls
     \<Longrightarrow> AList.update k v (map (\<lambda>l. (l, g l)) ls @ rest)
         = map (\<lambda>l. (l, (g(k := v)) l)) ls @ rest"
  by (induction ls) auto

lemma map_of_map_keys:
  "k \<in> set ls \<Longrightarrow> map_of (map (\<lambda>l. (l, g l)) ls @ rest) k = Some (g k)"
  by (induction ls) auto

lemma map_of_map_keys_notin:
  "k \<notin> set ls \<Longrightarrow> map_of (map (\<lambda>l. (l, g l)) ls @ rest) k = map_of rest k"
  by (induction ls) auto

lemma update_map_keys_notin:
  "k \<notin> set ls \<Longrightarrow> AList.update k v (map (\<lambda>l. (l, g l)) ls @ rest)
                  = map (\<lambda>l. (l, g l)) ls @ AList.update k v rest"
  by (induction ls) auto

lemma radarLabels_facts:
  "distinct radarLabels" "'''' \<notin> set radarLabels" "length radarLabels = 7"
  "\<forall>l \<in> set radarLabels. \<not> isArrayIndex l" "\<not> isArrayIndex ''''"
  "\<not> inherited ''''"
  by (simp_all add: radarLabels_def isArrayIndex_def isDigit_def inherited_def
      Object_prototype_functions_def)

lemma radarObject_Nil: "radarObject [] = map (\<lambda>l. (l, Num 0)) radarLabels"
  by (simp add: radarObject_def)

lemma map_of_radarObject:
  "l \<in> set radarLabels \<Longrightarrow> map_of (radarObject cs) l = Some (Num (count_list cs l))"
  "map_of (radarObject cs) '''' = (if '''' \<in> set cs then Some NaN else None)"
  using radarLabels_facts(2)
  by (simp_all add: radarObject_def map_of_map_keys map_of_map_keys_notin del: map_of_append)

lemma count_list_snoc: "count_list (cs @ [c]) l = count_list cs l + (if c = l then 1 else 0)"
  by (induction cs) auto

lemma update_radarObject:
  "l \<in> set radarLabels
     \<Longrightarrow> AList.update l (Num (Suc (count_list cs l))) (radarObject cs) = radarObject (cs @ [l])"
  "AList.update '''' NaN (radarObject cs) = radarObject (cs @ [''''])"
proof -
  assume l: "l \<in> set radarLabels"
  then have ne: "l \<noteq> ''''" using radarLabels_facts(2) by auto
  have "map (\<lambda>k. (k, ((\<lambda>k. Num (count_list cs k))(l := Num (Suc (count_list cs l)))) k)) radarLabels
        = map (\<lambda>k. (k, Num (count_list (cs @ [l]) k))) radarLabels"
    by (rule map_cong) (auto simp: count_list_snoc)
  then show "AList.update l (Num (Suc (count_list cs l))) (radarObject cs) = radarObject (cs @ [l])"
    using l ne radarLabels_facts(1)
    by (simp add: radarObject_def update_map_keys del: count_list_append fun_upd_apply)
next
  have "map (\<lambda>k. (k, Num (count_list cs k))) radarLabels
        = map (\<lambda>k. (k, Num (count_list (cs @ [''''] ) k))) radarLabels"
    using radarLabels_facts(2) by (intro map_cong) (auto simp: count_list_snoc)
  then show "AList.update '''' NaN (radarObject cs) = radarObject (cs @ [''''])"
    using radarLabels_facts(2)
    by (simp add: radarObject_def update_map_keys_notin del: count_list_append)
qed

lemma increment_radarObject:
  assumes "c \<in> set radarLabels \<or> c = ''''"
  shows "increment (radarObject cs) c = radarObject (cs @ [c])"
proof (cases "c \<in> set radarLabels")
  case True
  then show ?thesis
    by (simp add: increment_def Get_def Put_def ToNumber_def plus1_def map_of_radarObject
        update_radarObject)
next
  case False
  then have c: "c = ''''" using assms by simp
  show ?thesis
    using radarLabels_facts(6)
    by (simp add: c increment_def Get_def Put_def ToNumber_def plus1_def map_of_radarObject
        update_radarObject inherited_def)
qed

lemma timeCategory_range: "timeCategory hour \<in> set radarLabels \<or> timeCategory hour = ''''"
  by (cases hour) (simp_all add: timeCategory_def radarLabels_def)

lemma timeCategory_label:
  "(timeCategory hour = ''Early Night (00:00-03:59)'') = (case hour of Some h \<Rightarrow> 0 \<le> h \<and> h < 4 | None \<Rightarrow> False)"
  "(timeCategory hour = ''Early Morning (04:00-08:59)'') = (case hour of Some h \<Rightarrow> 4 \<le> h \<and> h < 9 | None \<Rightarrow> False)"
  "(timeCategory hour = ''Mid-Morning (09:00-11:59)'') = (case hour of Some h \<Rightarrow> 9 \<le> h \<and> h < 12 | None \<Rightarrow> False)"
  "(timeCategory hour = ''Early Afternoon (12:00-14:59)'') = (case hour of Some h \<Rightarrow> 12 \<le> h \<and> h < 15 | None \<Rightarrow> False)"
  "(timeCategory hour = ''Late Afternoon (15:00-17:59)'') = (case hour of Some h \<Rightarrow> 15 \<le> h \<and> h < 18 | None \<Rightarrow> False)"
  "(timeCategory hour = ''Evening (18:00-21:59)'') = (case hour of Some h \<Rightarrow> 18 \<le> h \<and> h < 22 | None \<Rightarrow> False)"
  "(timeCategory hour = ''Late Night (22:00-23:59)'') = (case hour of Some h \<Rightarrow> 22 \<le> h \<and> h < 24 | None \<Rightarrow> False)"
  by (cases hour; simp add: timeCategory_def; linarith)+

lemma timeCategory_in_labels:
  "(timeCategory hour \<in> set radarLabels) = (case hour of Some h \<Rightarrow> 0 \<le> h \<and> h < 24 | None \<Rightarrow> False)"
  by (cases hour) (auto simp: timeCategory_def radarLabels_def)

lemma radarStep_eq:
  "radarStep i (radarObject es, radarObject xs) =
     (radarObject (es @ map (\<lambda>i. timeCategory (hourOf i)) (filter (timed ''Enemy Action'') [i])),
      radarObject (xs @ map (\<lambda>i. timeCategory (hourOf i)) (filter (timed ''Explosive Hazard'') [i])))"
  using timeCategory_range[of "hourOf i"]
  by (auto simp: radarStep_def timed_def Let_def hourOf_def[symmetric] increment_radarObject)

lemma fold_radarStep:
  "fold radarStep incs (radarObject es, radarObject xs) =
     (radarObject (es @ map (\<lambda>i. timeCategory (hourOf i)) (filter (timed ''Enemy Action'') incs)),
      radarObject (xs @ map (\<lambda>i. timeCategory (hourOf i)) (filter (timed ''Explosive Hazard'') incs)))"
proof (induction incs arbitrary: es xs)
  case Nil
  show ?case by simp
next
  case (Cons i incs)
  show ?case
    unfolding fold_Cons comp_def radarStep_eq Cons.IH by simp
qed

lemma entries_radarObject: "entries (radarObject cs) = radarObject cs"
  using radarLabels_facts(4,5) by (intro entries_no_index) (auto simp: radarObject_def)

lemma take_radarObject:
  "take 7 (map fst (radarObject cs)) = radarLabels"
  "take 7 (map snd (radarObject cs)) = map (\<lambda>l. Num (count_list cs l)) radarLabels"
  using radarLabels_facts(3) by (simp_all add: radarObject_def comp_def)

lemma count_list_map: "count_list (map f xs) l = length (filter (\<lambda>x. f x = l) xs)"
  by (induction xs) auto

lemma sum_count_list:
  "distinct ks \<Longrightarrow> (\<Sum>k\<leftarrow>ks. count_list cs k) = length (filter (\<lambda>c. c \<in> set ks) cs)"
proof (induction cs)
  case Nil
  show ?case by simp
next
  case (Cons c cs)
  have "(\<Sum>k\<leftarrow>ks. count_list (c # cs) k)
        = (\<Sum>k\<leftarrow>ks. (if c = k then 1 else 0) + count_list cs k)"
    by (rule arg_cong[where f = sum_list]) (rule map_cong, simp_all)
  also have "\<dots> = (\<Sum>k\<leftarrow>ks. if c = k then 1 else 0) + (\<Sum>k\<leftarrow>ks. count_list cs k)"
    by (simp add: sum_list_addf)
  also have "(\<Sum>k\<leftarrow>ks. if c = k then 1 else 0) = (if c \<in> set ks then 1 else (0::nat))"
    using Cons.prems by (auto simp: sum_list_indicator)
  finally show ?case
    using Cons by simp
qed

lemma getRadarData_eq:
  "getRadarData this =
     ((map fst (radarObject (map (\<lambda>i. timeCategory (hourOf i)) (filter (timed ''Enemy Action'') (allIncidents this)))),
       map snd (radarObject (map (\<lambda>i. timeCategory (hourOf i)) (filter (timed ''Enemy Action'') (allIncidents this))))),
      (map fst (radarObject (map (\<lambda>i. timeCategory (hourOf i)) (filter (timed ''Explosive Hazard'') (allIncidents this)))),
       map snd (radarObject (map (\<lambda>i. timeCategory (hourOf i)) (filter (timed ''Explosive Hazard'') (allIncidents this))))))"
  using fold_radarStep[of "allIncidents this" "[]" "[]"]
  by (simp add: getRadarData_def Let_def radarObject_Nil[symmetric] Object_keys_def
      Object_values_def entries_radarObject)

lemma timeCategory_hourIn:
  "(timeCategory (hourOf i) = ''Early Night (00:00-03:59)'') = hourIn 0 4 i"
  "(timeCategory (hourOf i) = ''Early Morning (04:00-08:59)'') = hourIn 4 9 i"
  "(timeCategory (hourOf i) = ''Mid-Morning (09:00-11:59)'') = hourIn 9 12 i"
  "(timeCategory (hourOf i) = ''Early Afternoon (12:00-14:59)'') = hourIn 12 15 i"
  "(timeCategory (hourOf i) = ''Late Afternoon (15:00-17:59)'') = hourIn 15 18 i"
  "(timeCategory (hourOf i) = ''Evening (18:00-21:59)'') = hourIn 18 22 i"
  "(timeCategory (hourOf i) = ''Late Night (22:00-23:59)'') = hourIn 22 24 i"
  "(timeCategory (hourOf i) \<in> set radarLabels) = hourIn 0 24 i"
  by (simp_all add: timeCategory_label timeCategory_in_labels hourIn_def)

lemma bucket_counts:
  "map (\<lambda>l. Num (count_list (map (\<lambda>i. timeCategory (hourOf i)) (filter (timed t) incs)) l)) radarLabels
     = map (\<lambda>b. Num (length (filter (\<lambda>i. time i \<noteq> '''' \<and> type i = t \<and> hourIn (fst b) (snd b) i) incs)))
         hourBuckets"
  by (simp add: radarLabels_def hourBuckets_def count_list_map timeCategory_hourIn
      timed_def conj_assoc)

lemma numberOf_Num: "map numberOf (map (\<lambda>l. Num (f l)) ls) = map f ls"
  by (simp add: numberOf_def)

lemma bucket_total:
  "sum_list (map numberOf (map (\<lambda>l. Num (count_list (map (\<lambda>i. timeCategory (hourOf i)) (filter (timed t) incs)) l)) radarLabels))
     = length (filter (\<lambda>i. time i \<noteq> '''' \<and> type i = t \<and> hourIn 0 24 i) incs)"
  unfolding numberOf_Num
  by (simp add: sum_count_list radarLabels_facts(1) timeCategory_hourIn timed_def conj_assoc)

lemma length_filter_disj:
  "(\<And>x. \<not> (P x \<and> Q x)) \<Longrightarrow> length (filter P xs) + length (filter Q xs)
     = length (filter (\<lambda>x. P x \<or> Q x) xs)"
  by (induction xs) auto

lemma filter_timed_eligible:
  "filter (timed ''Enemy Action'')
     (filter (\<lambda>i. time i \<noteq> '''' \<and> (type i = ''Enemy Action'' \<or> type i = ''Explosive Hazard'')) incs)
   = filter (timed ''Enemy Action'') incs"
  "filter (timed ''Explosive Hazard'')
     (filter (\<lambda>i. time i \<noteq> '''' \<and> (type i = ''Enemy Action'' \<or> type i = ''Explosive Hazard'')) incs)
   = filter (timed ''Explosive Hazard'') incs"
  by (auto simp: timed_def intro: filter_cong)

lemma filter_timed_idem: "filter (timed t) (filter (timed t) incs) = filter (timed t) incs"
  by simp

lemma radarObject_in_range:
  assumes "\<forall>c \<in> set cs. c \<in> set radarLabels"
  shows "radarObject cs = map (\<lambda>l. (l, Num (count_list cs l))) radarLabels"
  using assms radarLabels_facts(2) by (auto simp: radarObject_def)

lemma getRadarData_independent:
  "getRadarData this =
     getRadarData (this\<lparr>allIncidents :=
        filter (\<lambda>i. time i \<noteq> '''' \<and> (type i = ''Enemy Action'' \<or> type i = ''Explosive Hazard''))
          (allIncidents this)\<rparr>)"
proof -
  have a: "\<And>X. allIncidents (this\<lparr>allIncidents := X\<rparr>) = X"
    by simp
  show ?thesis
    unfolding getRadarData_eq a filter_timed_eligible ..
qed

lemma getRadarData_histograms:
  "fst (getRadarData this)
     = fst (getRadarData (this\<lparr>allIncidents := filter (timed ''Enemy Action'') (allIncidents this)\<rparr>))"
  "snd (getRadarData this)
     = snd (getRadarData (this\<lparr>allIncidents := filter (timed ''Explosive Hazard'') (allIncidents this)\<rparr>))"
proof -
  have a: "\<And>X. allIncidents (this\<lparr>allIncidents := X\<rparr>) = X"
    by simp
  show "fst (getRadarData this)
     = fst (getRadarData (this\<lparr>allIncidents := filter (timed ''Enemy Action'') (allIncidents this)\<rparr>))"
    unfolding getRadarData_eq a fst_conv filter_timed_idem ..
  show "snd (getRadarData this)
     = snd (getRadarData (this\<lparr>allIncidents := filter (timed ''Explosive Hazard'') (allIncidents this)\<rparr>))"
    unfolding getRadarData_eq a snd_conv filter_timed_idem ..
qed

lemma getRadarData_in_range:
  assumes "\<forall>i \<in> set (allIncidents this).
             time i \<noteq> '''' \<and> (type i = ''Enemy Action'' \<or> type i = ''Explosive Hazard'')
               \<longrightarrow> hourIn 0 24 i"
  shows "getRadarData this =
     ((radarLabels,
       map (\<lambda>b. Num (length (filter (\<lambda>i. time i \<noteq> '''' \<and> type i = ''Enemy Action''
                                            \<and> hourIn (fst b) (snd b) i) (allIncidents this))))
         hourBuckets),
      (radarLabels,
       map (\<lambda>b. Num (length (filter (\<lambda>i. time i \<noteq> '''' \<and> type i = ''Explosive Hazard''
                                            \<and> hourIn (fst b) (snd b) i) (allIncidents this))))
         hourBuckets))"
proof -
  define cat where "cat = (\<lambda>i. timeCategory (hourOf i))"
  have r: "\<forall>c \<in> set (map cat (filter (timed t) (allIncidents this))). c \<in> set radarLabels"
    if "t = ''Enemy Action'' \<or> t = ''Explosive Hazard''" for t
    using assms that by (auto simp: cat_def timed_def timeCategory_hourIn(8))
  have o: "radarObject (map cat (filter (timed t) (allIncidents this)))
           = map (\<lambda>l. (l, Num (count_list (map cat (filter (timed t) (allIncidents this))) l))) radarLabels"
    if "t = ''Enemy Action'' \<or> t = ''Explosive Hazard''" for t
    using r[OF that] by (rule radarObject_in_range)
  show ?thesis
    unfolding getRadarData_eq cat_def[symmetric]
    by (simp add: o comp_def) (simp add: cat_def bucket_counts)
qed

lemma radar_first_seven:
  "(let R = getRadarData this; incs = allIncidents this
    in take 7 (fst (fst R)) = radarLabels \<and> take 7 (fst (snd R)) = radarLabels
     \<and> take 7 (snd (fst R))
         = map (\<lambda>b. Num (length (filter (\<lambda>i. time i \<noteq> '''' \<and> type i = ''Enemy Action''
                                               \<and> hourIn (fst b) (snd b) i) incs))) hourBuckets
     \<and> take 7 (snd (snd R))
         = map (\<lambda>b. Num (length (filter (\<lambda>i. time i \<noteq> '''' \<and> type i = ''Explosive Hazard''
                                               \<and> hourIn (fst b) (snd b) i) incs))) hourBuckets
     \<and> sum_list (map numberOf (take 7 (snd (fst R)))) + sum_list (map numberOf (take 7 (snd (snd R))))
         = length (filter (\<lambda>i. time i \<noteq> ''''
                                \<and> (type i = ''Enemy Action'' \<or> type i = ''Explosive Hazard'')
                                \<and> hourIn 0 24 i) incs))"
proof -
  define R where "R = getRadarData this"
  define incs where "incs = allIncidents this"
  define cat where "cat = (\<lambda>i. timeCategory (hourOf i))"
  have k: "take 7 (fst (fst R)) = radarLabels" "take 7 (fst (snd R)) = radarLabels"
    unfolding R_def getRadarData_eq by (simp_all add: take_radarObject)
  have v: "take 7 (snd (fst R))
           = map (\<lambda>l. Num (count_list (map cat (filter (timed ''Enemy Action'') incs)) l)) radarLabels"
      "take 7 (snd (snd R))
           = map (\<lambda>l. Num (count_list (map cat (filter (timed ''Explosive Hazard'') incs)) l)) radarLabels"
    unfolding R_def getRadarData_eq incs_def cat_def by (simp_all add: take_radarObject)
  have e: "take 7 (snd (fst R))
         = map (\<lambda>b. Num (length (filter (\<lambda>i. time i \<noteq> '''' \<and> type i = ''Enemy Action''
                                               \<and> hourIn (fst b) (snd b) i) incs))) hourBuckets"
    unfolding v cat_def by (rule bucket_counts)
  have x: "take 7 (snd (snd R))
         = map (\<lambda>b. Num (length (filter (\<lambda>i. time i \<noteq> '''' \<and> type i = ''Explosive Hazard''
                                               \<and> hourIn (fst b) (snd b) i) incs))) hourBuckets"
    unfolding v cat_def by (rule bucket_counts)
  have te: "sum_list (map numberOf (take 7 (snd (fst R))))
            = length (filter (\<lambda>i. time i \<noteq> '''' \<and> type i = ''Enemy Action'' \<and> hourIn 0 24 i) incs)"
    unfolding v cat_def by (rule bucket_total)
  have tx: "sum_list (map numberOf (take 7 (snd (snd R))))
            = length (filter (\<lambda>i. time i \<noteq> '''' \<and> type i = ''Explosive Hazard'' \<and> hourIn 0 24 i) incs)"
    unfolding v cat_def by (rule bucket_total)
  have "length (filter (\<lambda>i. time i \<noteq> '''' \<and> type i = ''Enemy Action'' \<and> hourIn 0 24 i) incs)
         + length (filter (\<lambda>i. time i \<noteq> '''' \<and> type i = ''Explosive Hazard'' \<and> hourIn 0 24 i) incs)
         = length (filter (\<lambda>i. (time i \<noteq> '''' \<and> type i = ''Enemy Action'' \<and> hourIn 0 24 i)
                              \<or> (time i \<noteq> '''' \<and> type i = ''Explosive Hazard'' \<and> hourIn 0 24 i)) incs)"
    by (rule length_filter_disj) auto
  also have "\<dots> = length (filter (\<lambda>i. time i \<noteq> ''''
                                \<and> (type i = ''Enemy Action'' \<or> type i = ''Explosive Hazard'')
                                \<and> hourIn 0 24 i) incs)"
    by (rule arg_cong[where f = length], rule filter_cong) auto
  finally have s: "sum_list (map numberOf (take 7 (snd (fst R))))
                   + sum_list (map numberOf (take 7 (snd (snd R))))
         = length (filter (\<lambda>i. time i \<noteq> ''''
                                \<and> (type i = ''Enemy Action'' \<or> type i = ''Explosive Hazard'')
                                \<and> hourIn 0 24 i) incs)"
    unfolding te tx .
  show ?thesis
    unfolding Let_def R_def[symmetric] incs_def[symmetric]
    using k e x s by (intro conjI)
qed

lemma timed_eq: "timed t = (\<lambda>i. time i \<noteq> '''' \<and> type i = t)"
  by (simp add: fun_eq_iff timed_def)

section \<open>The claim on the radar histograms\<close>

text \<open>
  Claim C5, as the code has it. The result of \<open>getRadarData\<close> is that of the records of
  type \<open>Enemy Action\<close> or \<open>Explosive Hazard\<close> whose time is not empty: every other record
  can be removed from the list without changing it; the first histogram is that of the
  records of type \<open>Enemy Action\<close> with a time alone, the second that of the records of type
  \<open>Explosive Hazard\<close> with a time alone. In each histogram the first seven labels are the
  seven fixed labels, and the count at the label of a bucket is the number of records of
  the type of the histogram whose time is not empty and whose hour lies in the bucket.
  The fourteen counts add up to the number of records of one of the two types whose time
  is not empty and whose hour is a number from 0 up to, not including, 24. When every
  record of the two types with a time has such an hour, each histogram is exactly the
  seven labels with these seven counts. (What the code adds for a record whose hour is in
  no bucket is left open here.)
\<close>

theorem radar_buckets:
  "(let R = getRadarData this; incs = allIncidents this
    in R = getRadarData
             (this\<lparr>allIncidents :=
                filter (\<lambda>i. time i \<noteq> ''''
                            \<and> (type i = ''Enemy Action'' \<or> type i = ''Explosive Hazard'')) incs\<rparr>)
     \<and> fst R = fst (getRadarData
                      (this\<lparr>allIncidents :=
                         filter (\<lambda>i. time i \<noteq> '''' \<and> type i = ''Enemy Action'') incs\<rparr>))
     \<and> snd R = snd (getRadarData
                      (this\<lparr>allIncidents :=
                         filter (\<lambda>i. time i \<noteq> '''' \<and> type i = ''Explosive Hazard'') incs\<rparr>))
     \<and> take 7 (fst (fst R)) = radarLabels \<and> take 7 (fst (snd R)) = radarLabels
     \<and> take 7 (snd (fst R))
         = map (\<lambda>b. Num (length (filter (\<lambda>i. time i \<noteq> '''' \<and> type i = ''Enemy Action''
                                               \<and> hourIn (fst b) (snd b) i) incs))) hourBuckets
     \<and> take 7 (snd (snd R))
         = map (\<lambda>b. Num (length (filter (\<lambda>i. time i \<noteq> '''' \<and> type i = ''Explosive Hazard''
                                               \<and> hourIn (fst b) (snd b) i) incs))) hourBuckets
     \<and> sum_list (map numberOf (take 7 (snd (fst R)))) + sum_list (map numberOf (take 7 (snd (snd R))))
         = length (filter (\<lambda>i. time i \<noteq> ''''
                                \<and> (type i = ''Enemy Action'' \<or> type i = ''Explosive Hazard'')
                                \<and> hourIn 0 24 i) incs)
     \<and> ((\<forall>i \<in> set incs.
             time i \<noteq> '''' \<and> (type i = ''Enemy Action'' \<or> type i = ''Explosive Hazard'')
               \<longrightarrow> hourIn 0 24 i)
          \<longrightarrow> R = ((radarLabels,
                    map (\<lambda>b. Num (length (filter (\<lambda>i. time i \<noteq> '''' \<and> type i = ''Enemy Action''
                                                         \<and> hourIn (fst b) (snd b) i) incs)))
                      hourBuckets),
                   (radarLabels,
                    map (\<lambda>b. Num (length (filter (\<lambda>i. time i \<noteq> '''' \<and> type i = ''Explosive Hazard''
                                                         \<and> hourIn (fst b) (snd b) i) incs)))
                      hourBuckets))))"
proof -
  note a = getRadarData_independent[of this]
  note b = getRadarData_histograms[of this, unfolded timed_eq]
  note c = radar_first_seven[of this, unfolded Let_def]
  note d = getRadarData_in_range[of this]
  show ?thesis
    unfolding Let_def
    using a b c d by blast
qed

theorem radar_buckets_witness:
  "getRadarData (loadData exampleNewDate exampleRows None constructor)
     = ((radarLabels, [Num 0, Num 0, Num 0, Num 1, Num 0, Num 0, Num 0]),
        (radarLabels, [Num 1, Num 0, Num 0, Num 0, Num 0, Num 0, Num 0]))
   \<and> list_all (\<lambda>i. time i \<noteq> '''' \<and> (type i = ''Enemy Action'' \<or> type i = ''Explosive Hazard'')
                      \<longrightarrow> hourIn 0 24 i)
        (allIncidents (loadData exampleNewDate exampleRows None constructor))
   \<and> length (filter (\<lambda>i. time i \<noteq> ''''
                                \<and> (type i = ''Enemy Action'' \<or> type i = ''Explosive Hazard'')
                                \<and> hourIn 0 24 i)
        (allIncidents (loadData exampleNewDate exampleRows None constructor))) = 2
   \<and> length (allIncidents (loadData exampleNewDate exampleRows None constructor)) = 3
   \<and> getRadarData
        ((loadData exampleNewDate exampleRows None constructor)
           \<lparr>allIncidents :=
              filter (\<lambda>i. time i \<noteq> '''' \<and> (type i = ''Enemy Action'' \<or> type i = ''Explosive Hazard''))
                (allIncidents (loadData exampleNewDate exampleRows None constructor))\<rparr>)
     = ((radarLabels, [Num 0, Num 0, Num 0, Num 1, Num 0, Num 0, Num 0]),
        (radarLabels, [Num 1, Num 0, Num 0, Num 0, Num 0, Num 0, Num 0]))"
proof -
  define L where "L = loadData exampleNewDate exampleRows None constructor"
  have h: "list_all (\<lambda>i. time i \<noteq> '''' \<and> (type i = ''Enemy Action'' \<or> type i = ''Explosive Hazard'')
                      \<longrightarrow> hourIn 0 24 i) (allIncidents L)"
    unfolding L_def by code_simp
  have n: "length (allIncidents L) = 3"
    unfolding L_def by (simp add: loadData_eq Let_def exampleRows_def)
  have e: "map (\<lambda>b. Num (length (filter (\<lambda>i. time i \<noteq> '''' \<and> type i = ''Enemy Action''
                                               \<and> hourIn (fst b) (snd b) i) (allIncidents L)))) hourBuckets
           = [Num 0, Num 0, Num 0, Num 1, Num 0, Num 0, Num 0]"
    unfolding L_def by code_simp
  have x: "map (\<lambda>b. Num (length (filter (\<lambda>i. time i \<noteq> '''' \<and> type i = ''Explosive Hazard''
                                               \<and> hourIn (fst b) (snd b) i) (allIncidents L)))) hourBuckets
           = [Num 1, Num 0, Num 0, Num 0, Num 0, Num 0, Num 0]"
    unfolding L_def by code_simp
  from h have h': "\<forall>i \<in> set (allIncidents L).
             time i \<noteq> '''' \<and> (type i = ''Enemy Action'' \<or> type i = ''Explosive Hazard'')
               \<longrightarrow> hourIn 0 24 i"
    by (simp add: list_all_iff)
  note t = radar_buckets[of L, unfolded Let_def]
  have g: "getRadarData L
     = ((radarLabels, [Num 0, Num 0, Num 0, Num 1, Num 0, Num 0, Num 0]),
        (radarLabels, [Num 1, Num 0, Num 0, Num 0, Num 0, Num 0, Num 0]))"
    using t h' unfolding e x by blast
  have i: "getRadarData
        (L\<lparr>allIncidents :=
              filter (\<lambda>i. time i \<noteq> '''' \<and> (type i = ''Enemy Action'' \<or> type i = ''Explosive Hazard''))
                (allIncidents L)\<rparr>) = getRadarData L"
    using t by simp
  have s: "sum_list (map numberOf (take 7 (snd (fst (getRadarData L)))))
           + sum_list (map numberOf (take 7 (snd (snd (getRadarData L)))))
         = length (filter (\<lambda>i. time i \<noteq> ''''
                                \<and> (type i = ''Enemy Action'' \<or> type i = ''Explosive Hazard'')
                                \<and> hourIn 0 24 i) (allIncidents L))"
    using t by blast
  have c: "length (filter (\<lambda>i. time i \<noteq> ''''
                                \<and> (type i = ''Enemy Action'' \<or> type i = ''Explosive Hazard'')
                                \<and> hourIn 0 24 i) (allIncidents L)) = 2"
    unfolding s[symmetric] g by (simp add: numberOf_def)
  show ?thesis
    unfolding L_def[symmetric] i using g h n c by (intro conjI)
qed

text \<open>
  Claim C5 as stated fails: three records of the two types have a time, the hours of
  two of them (\<open>25\<close>, and \<open>noon\<close>, which is no number) are in no bucket, and the
  fourteen counts add up to one. Each histogram has an eighth key, the empty string.
\<close>

theorem radar_total_counterexample:
  "snd (fst (getRadarData (loadData exampleNewDate lateRows None constructor)))
     = [Num 0, Num 0, Num 0, Num 0, Num 0, Num 0, Num 1, NaN]
   \<and> fst (fst (getRadarData (loadData exampleNewDate lateRows None constructor)))
     = radarLabels @ ['''']
   \<and> snd (snd (getRadarData (loadData exampleNewDate lateRows None constructor)))
     = [Num 0, Num 0, Num 0, Num 0, Num 0, Num 0, Num 0, NaN]
   \<and> length (filter (\<lambda>i. time i \<noteq> '''' \<and> (type i = ''Enemy Action'' \<or> type i = ''Explosive Hazard''))
        (allIncidents (loadData exampleNewDate lateRows None constructor))) = 3"
  by code_simp

section \<open>Counting in plain objects\<close>








lemma mset_keyOrder: "mset (keyOrder ks) = mset ks"
  by (simp add: keyOrder_def)


lemma distinct_keyOrder: "distinct (keyOrder ks) = distinct ks"
  using mset_keyOrder[of ks] by (metis mset_eq_imp_distinct_iff)


























section \<open>The claims on the treemap and on failure\<close>




text \<open>
  Claim C9 fails in the code: for a record whose type is \<open>toString\<close> and whose category is
  \<open>length\<close>, \<open>getTreemapData\<close> throws a \<open>TypeError\<close> and returns no value.
  \<open>treemapData['toString']\<close> is the function inherited from \<open>Object.prototype\<close>, its
  \<open>length\<close> is 0 and read-only, and the assignment \<open>treemapData[type][category] = 0\<close>
  throws in the strict code of the class.
\<close>

theorem treemap_throws:
  "getTreemapData (loadData exampleNewDate inheritedRows None constructor) = Inl TypeError"
  by code_simp

section \<open>The heatmap\<close>









section \<open>The claim on the heatmap\<close>




end
